theory Spec2Isabelle
  imports Complex_Main "HOL-Library.Log_Nat"
begin

section \<open>JavaScript values\<close>

text \<open>
  Overlay records, patches and drafts are plain JavaScript objects whose fields are read
  dynamically, so they are modelled as maps from property names to values. A
  number is a real (the value of a finite binary64 number), an infinity or NaN; the sign
  of zero is not modelled. Arrays and objects with user-defined conversions do not occur
  in the data handled here.
\<close>

datatype jsnum = NaN | NegInf | Fin real | PosInf

datatype jsval =
    JUndefined
  | JNull
  | JBool bool
  | JNum jsnum
  | JStr string
  | JObj "string \<Rightarrow> jsval option"

type_synonym jsobj = "string \<Rightarrow> jsval option"

text \<open>Truthiness, as tested by \<^verbatim>\<open>if (v)\<close> and negated by \<^verbatim>\<open>!v\<close>.\<close>

fun truthy :: "jsval \<Rightarrow> bool" where
  "truthy JUndefined = False"
| "truthy JNull = False"
| "truthy (JBool b) = b"
| "truthy (JNum NaN) = False"
| "truthy (JNum (Fin r)) = (r \<noteq> 0)"
| "truthy (JNum n) = True"
| "truthy (JStr s) = (s \<noteq> [])"
| "truthy (JObj obj) = True"

text \<open>\<^verbatim>\<open>obj.k\<close> on an object: a missing property reads as \<^verbatim>\<open>undefined\<close>.\<close>

definition field :: "jsobj \<Rightarrow> string \<Rightarrow> jsval" where
  "field obj k = (case obj k of None \<Rightarrow> JUndefined | Some v \<Rightarrow> v)"

text \<open>
  \<^verbatim>\<open>v.k\<close> on a value that is neither \<^verbatim>\<open>null\<close> nor \<^verbatim>\<open>undefined\<close>: a primitive has none
  of the properties read here. On \<^verbatim>\<open>null\<close> and \<^verbatim>\<open>undefined\<close> the access throws; every
  caller below tests \<open>nullish\<close> first.
\<close>

fun nullish :: "jsval \<Rightarrow> bool" where
  "nullish JUndefined = True"
| "nullish JNull = True"
| "nullish v = False"

fun member :: "jsval \<Rightarrow> string \<Rightarrow> jsval" where
  "member (JObj obj) k = field obj k"
| "member v k = JUndefined"


text \<open>
  The conversion to a number that the relational and arithmetic operators apply to an
  operand. What a string converts to is decided by the runtime's numeric-literal parser,
  which is taken as the parameter \<open>str2num\<close>.
\<close>

fun toNumber :: "(string \<Rightarrow> jsnum) \<Rightarrow> jsval \<Rightarrow> jsnum" where
  "toNumber str2num JUndefined = NaN"
| "toNumber str2num JNull = Fin 0"
| "toNumber str2num (JBool b) = Fin (if b then 1 else 0)"
| "toNumber str2num (JNum n) = n"
| "toNumber str2num (JStr s) = str2num s"
| "toNumber str2num (JObj obj) = NaN"

text \<open>\<^verbatim>\<open>a < b\<close> and \<^verbatim>\<open>a <= b\<close> on numbers; any comparison with NaN is false.\<close>

fun num_less :: "jsnum \<Rightarrow> jsnum \<Rightarrow> bool" where
  "num_less NaN b = False"
| "num_less a NaN = False"
| "num_less a NegInf = False"
| "num_less NegInf b = True"
| "num_less PosInf b = False"
| "num_less (Fin x) PosInf = True"
| "num_less (Fin x) (Fin y) = (x < y)"


text \<open>
  Rounding of a real to binary64, to nearest with ties to the even significand: the
  result is a multiple of the unit in the last place of the binade of \<open>x\<close> (53 significant
  bits; the exponent is not taken below \<open>-1022\<close>, which gives the subnormal numbers), and
  a result of magnitude \<open>2 ^ 1024\<close> or more is an infinity. \<open>exponent2 x\<close> is the integer
  \<open>e\<close> with \<open>2 ^ e \<le> \<bar>x\<bar> < 2 ^ (e + 1)\<close>, computed from bit lengths.
\<close>

definition round_half_even :: "real \<Rightarrow> int" where
  "round_half_even m =
     (let f = \<lfloor>m\<rfloor>
      in if m - of_int f < 1 / 2 then f
         else if 1 / 2 < m - of_int f then f + 1
         else if even f then f else f + 1)"

definition exponent2 :: "real \<Rightarrow> int" where
  "exponent2 x =
     (if 1 \<le> \<bar>x\<bar> then bitlen \<lfloor>\<bar>x\<bar>\<rfloor> - 1 else - bitlen (\<lceil>1 / \<bar>x\<bar>\<rceil> - 1))"

definition binary64 :: "real \<Rightarrow> jsnum" where
  "binary64 x =
     (if x = 0 then Fin 0
      else
        (let e = max (exponent2 x) (- 1022);
             ulp = 2 powi (e - 52);
             y = of_int (round_half_even (x / ulp)) * ulp
         in if 2 ^ 1024 \<le> y then PosInf
            else if y \<le> - (2 ^ 1024) then NegInf
            else Fin y))"

text \<open>
  \<^verbatim>\<open>a - b\<close> on numbers: the exact difference of two finite numbers, rounded to binary64.
\<close>

fun num_sub :: "jsnum \<Rightarrow> jsnum \<Rightarrow> jsnum" where
  "num_sub NaN b = NaN"
| "num_sub a NaN = NaN"
| "num_sub (Fin x) (Fin y) = binary64 (x - y)"
| "num_sub (Fin x) PosInf = NegInf"
| "num_sub (Fin x) NegInf = PosInf"
| "num_sub PosInf PosInf = NaN"
| "num_sub PosInf b = PosInf"
| "num_sub NegInf NegInf = NaN"
| "num_sub NegInf b = NegInf"

text \<open>
  \<^verbatim>\<open>Math.min\<close>, \<^verbatim>\<open>Math.max\<close> and \<^verbatim>\<open>Math.round\<close> (ties go up). They are exact: the
  first two return one of their arguments, and the integer nearest to a binary64 number is
  a binary64 number.
\<close>

fun Math_min :: "jsnum \<Rightarrow> jsnum \<Rightarrow> jsnum" where
  "Math_min NaN b = NaN"
| "Math_min a NaN = NaN"
| "Math_min a b = (if num_less b a then b else a)"

fun Math_max :: "jsnum \<Rightarrow> jsnum \<Rightarrow> jsnum" where
  "Math_max NaN b = NaN"
| "Math_max a NaN = NaN"
| "Math_max a b = (if num_less a b then b else a)"

fun Math_round :: "jsnum \<Rightarrow> jsnum" where
  "Math_round (Fin x) = Fin (of_int \<lfloor>x + 1 / 2\<rfloor>)"
| "Math_round n = n"

section \<open>The remote store\<close>

text \<open>
  A rejected request carries the transport's error object. Two of its fields are read:
  \<^verbatim>\<open>error.response?.data?.error\<close> (\<^verbatim>\<open>undefined\<close> when the chain stops early) and
  \<^verbatim>\<open>error.message\<close>.
\<close>

record api_error =
  response_data_error :: jsval
  message :: jsval

text \<open>\<^verbatim>\<open>apiUtils.handleError\<close>; the default parameter applies when no default is passed.\<close>

definition handleError :: "api_error \<Rightarrow> jsval \<Rightarrow> jsval" where
  "handleError err defaultMessage =
     (if truthy (response_data_error err) then response_data_error err
      else if truthy (message err) then message err
      else if defaultMessage = JUndefined then JStr ''An error occurred''
      else defaultMessage)"

text \<open>
  A promise settles as fulfilled with a value or rejected with an error; these are also
  the two statuses of an element of \<^verbatim>\<open>Promise.allSettled\<close>.
\<close>

datatype 'a settled = Fulfilled 'a | Rejected api_error

fun fulfilled :: "'a settled \<Rightarrow> bool" where
  "fulfilled (Fulfilled v) = True"
| "fulfilled (Rejected e) = False"

text \<open>The requests the client sends, by method, path and body.\<close>

datatype request =
    GET string
  | POST string jsobj
  | PUT string jsobj
  | DELETE string

text \<open>
  The remote store is outside the program. It is modelled as a responder that decides
  each reply from the whole sequence of requests sent so far (the last element is the
  request being answered), which covers every deterministic server, stateful or not. A
  reply is rejected with an error or fulfilled with a body and an HTTP status:
  \<^verbatim>\<open>GET /overlays\<close> answers with an array of overlay records, the other endpoints with
  some body.
\<close>

type_synonym overlay = jsobj

record remote =
  list_reply :: "request list \<Rightarrow> overlay list settled"
  data_reply :: "request list \<Rightarrow> jsval settled"
  reply_status :: "request list \<Rightarrow> nat"

text \<open>
  The response object with which the HTTP client fulfils a request: the body is its
  \<^verbatim>\<open>data\<close> property. The properties that no code of the store reads (headers, request
  configuration) are left out.
\<close>

record 'a axios_response =
  response_data :: 'a
  response_status :: nat

fun settle_response :: "nat \<Rightarrow> 'a settled \<Rightarrow> 'a axios_response settled" where
  "settle_response st (Fulfilled body) =
     Fulfilled \<lparr>response_data = body, response_status = st\<rparr>"
| "settle_response st (Rejected err) = Rejected err"

definition respond_list :: "remote \<Rightarrow> request list \<Rightarrow> overlay list axios_response settled" where
  "respond_list srv rs = settle_response (reply_status srv rs) (list_reply srv rs)"

definition respond :: "remote \<Rightarrow> request list \<Rightarrow> jsval axios_response settled" where
  "respond srv rs = settle_response (reply_status srv rs) (data_reply srv rs)"

text \<open>
  \<^verbatim>\<open>const response = await ...; return response.data\<close>: a fulfilled response is
  unwrapped to its body, a rejection passes through.
\<close>

fun return_data :: "'a axios_response settled \<Rightarrow> 'a settled" where
  "return_data (Fulfilled response) = Fulfilled (response_data response)"
| "return_data (Rejected err) = Rejected err"

section \<open>The overlay store\<close>

text \<open>
  The state of the \<^verbatim>\<open>useOverlays\<close> hook, together with the trace of the requests the
  client has sent.
\<close>

record store =
  overlays :: "overlay list"
  loading :: bool
  error :: jsval
  sent :: "request list"

text \<open>
  The four methods of the HTTP client that the overlay API calls: each sends one request
  and settles with the remote store's reply to it.
\<close>

definition api_get ::
  "remote \<Rightarrow> string \<Rightarrow> store \<Rightarrow> overlay list axios_response settled \<times> store" where
  "api_get srv url s =
     (let rs = sent s @ [GET url] in (respond_list srv rs, s\<lparr>sent := rs\<rparr>))"

definition api_post ::
  "remote \<Rightarrow> string \<Rightarrow> jsobj \<Rightarrow> store \<Rightarrow> jsval axios_response settled \<times> store" where
  "api_post srv url body s =
     (let rs = sent s @ [POST url body] in (respond srv rs, s\<lparr>sent := rs\<rparr>))"

definition api_put ::
  "remote \<Rightarrow> string \<Rightarrow> jsobj \<Rightarrow> store \<Rightarrow> jsval axios_response settled \<times> store" where
  "api_put srv url body s =
     (let rs = sent s @ [PUT url body] in (respond srv rs, s\<lparr>sent := rs\<rparr>))"

definition api_delete ::
  "remote \<Rightarrow> string \<Rightarrow> store \<Rightarrow> jsval axios_response settled \<times> store" where
  "api_delete srv url s =
     (let rs = sent s @ [DELETE url] in (respond srv rs, s\<lparr>sent := rs\<rparr>))"

text \<open>
  The overlay API; an id is spliced into the path as it is. Each of the four functions
  awaits the response and returns its body.
\<close>

definition overlayAPI_getAll :: "remote \<Rightarrow> store \<Rightarrow> overlay list settled \<times> store" where
  "overlayAPI_getAll srv s =
     (case api_get srv ''/overlays'' s of (response, s1) \<Rightarrow> (return_data response, s1))"

definition overlayAPI_create :: "remote \<Rightarrow> jsobj \<Rightarrow> store \<Rightarrow> jsval settled \<times> store" where
  "overlayAPI_create srv overlayData s =
     (case api_post srv ''/overlays'' overlayData s of
        (response, s1) \<Rightarrow> (return_data response, s1))"

definition overlayAPI_update ::
  "remote \<Rightarrow> string \<Rightarrow> jsobj \<Rightarrow> store \<Rightarrow> jsval settled \<times> store" where
  "overlayAPI_update srv i updateData s =
     (case api_put srv (''/overlays/'' @ i) updateData s of
        (response, s1) \<Rightarrow> (return_data response, s1))"

definition overlayAPI_delete :: "remote \<Rightarrow> string \<Rightarrow> store \<Rightarrow> jsval settled \<times> store" where
  "overlayAPI_delete srv i s =
     (case api_delete srv (''/overlays/'' @ i) s of
        (response, s1) \<Rightarrow> (return_data response, s1))"

text \<open>
  \<^verbatim>\<open>overlayAPI.batchUpdate\<close>: one \<^verbatim>\<open>PUT\<close> per element, all awaited with
  \<^verbatim>\<open>Promise.allSettled\<close>, so the call itself never rejects. It settles the promises of
  the HTTP client themselves, so a fulfilled element carries the whole response object,
  not its body. The requests are started in the order of the list and the remote store
  is taken to answer them in that order.
\<close>

fun overlayAPI_batchUpdate ::
  "remote \<Rightarrow> (string \<times> jsobj) list \<Rightarrow> store
     \<Rightarrow> jsval axios_response settled list \<times> store" where
  "overlayAPI_batchUpdate srv [] s = ([], s)"
| "overlayAPI_batchUpdate srv ((i, d) # updates) s =
     (case api_put srv (''/overlays/'' @ i) d s of
        (r, s1) \<Rightarrow>
          (case overlayAPI_batchUpdate srv updates s1 of
             (rs, s2) \<Rightarrow> (r # rs, s2)))"

text \<open>\<^verbatim>\<open>fetchOverlays\<close>: the error is caught, so the call never rejects.\<close>

definition fetchOverlays :: "remote \<Rightarrow> store \<Rightarrow> store" where
  "fetchOverlays srv s =
     (case overlayAPI_getAll srv (s\<lparr>loading := True, error := JNull\<rparr>) of
        (Fulfilled data, s1) \<Rightarrow> s1\<lparr>overlays := data, loading := False\<rparr>
      | (Rejected err, s1) \<Rightarrow>
          s1\<lparr>error := handleError err (JStr ''Failed to fetch overlays''), loading := False\<rparr>)"

definition createOverlay :: "remote \<Rightarrow> jsobj \<Rightarrow> store \<Rightarrow> jsval settled \<times> store" where
  "createOverlay srv overlayData s =
     (case overlayAPI_create srv overlayData s of
        (Fulfilled response, s1) \<Rightarrow> (Fulfilled response, fetchOverlays srv s1)
      | (Rejected err, s1) \<Rightarrow>
          (Rejected err, s1\<lparr>error := handleError err (JStr ''Failed to create overlay'')\<rparr>))"

text \<open>
  The object spread \<^verbatim>\<open>{ ...overlay, ...updateData, updated_at: stamp }\<close>: later
  properties win.
\<close>

definition merged :: "overlay \<Rightarrow> jsobj \<Rightarrow> string \<Rightarrow> overlay" where
  "merged ov updateData stamp = (ov ++ updateData)(''updated_at'' \<mapsto> JStr stamp)"

text \<open>
  The state updater of \<^verbatim>\<open>updateOverlay\<close>. Every matching record reads the clock anew:
  \<open>now n\<close> is the ISO string returned by the \<open>n\<close>-th reading of
  \<^verbatim>\<open>new Date().toISOString()\<close> within the operation.
\<close>

fun merge_matching ::
  "(nat \<Rightarrow> string) \<Rightarrow> nat \<Rightarrow> string \<Rightarrow> jsobj \<Rightarrow> overlay list \<Rightarrow> overlay list" where
  "merge_matching now n i updateData [] = []"
| "merge_matching now n i updateData (ov # prevOverlays) =
     (if field ov ''_id'' = JStr i
      then merged ov updateData (now n) # merge_matching now (Suc n) i updateData prevOverlays
      else ov # merge_matching now n i updateData prevOverlays)"

definition updateOverlay ::
  "remote \<Rightarrow> (nat \<Rightarrow> string) \<Rightarrow> string \<Rightarrow> jsobj \<Rightarrow> store \<Rightarrow> unit settled \<times> store" where
  "updateOverlay srv now i updateData s =
     (case overlayAPI_update srv i updateData s of
        (Fulfilled response, s1) \<Rightarrow>
          (Fulfilled (), s1\<lparr>overlays := merge_matching now 0 i updateData (overlays s1)\<rparr>)
      | (Rejected err, s1) \<Rightarrow>
          (Rejected err,
           (fetchOverlays srv s1)\<lparr>error := handleError err (JStr ''Failed to update overlay'')\<rparr>))"

definition deleteOverlay :: "remote \<Rightarrow> string \<Rightarrow> store \<Rightarrow> unit settled \<times> store" where
  "deleteOverlay srv i s =
     (case overlayAPI_delete srv i s of
        (Fulfilled response, s1) \<Rightarrow>
          (Fulfilled (), s1\<lparr>overlays := filter (\<lambda>ov. field ov ''_id'' \<noteq> JStr i) (overlays s1)\<rparr>)
      | (Rejected err, s1) \<Rightarrow>
          (Rejected err,
           (fetchOverlays srv s1)\<lparr>error := handleError err (JStr ''Failed to delete overlay'')\<rparr>))"

text \<open>\<^verbatim>\<open>Array.prototype.findIndex\<close>; \<open>None\<close> stands for \<open>-1\<close>.\<close>

fun findIndex :: "('a \<Rightarrow> bool) \<Rightarrow> 'a list \<Rightarrow> nat option" where
  "findIndex P [] = None"
| "findIndex P (x # xs) =
     (if P x then Some 0 else map_option Suc (findIndex P xs))"

text \<open>
  The \<^verbatim>\<open>forEach\<close> of \<^verbatim>\<open>batchUpdateOverlays\<close> over the successful updates: each one is
  written over the first record with its id, if there is one.
\<close>

fun apply_updates ::
  "(nat \<Rightarrow> string) \<Rightarrow> nat \<Rightarrow> (string \<times> jsobj) list \<Rightarrow> overlay list \<Rightarrow> overlay list" where
  "apply_updates now n [] newOverlays = newOverlays"
| "apply_updates now n ((i, d) # successfulUpdates) newOverlays =
     (case findIndex (\<lambda>ov. field ov ''_id'' = JStr i) newOverlays of
        None \<Rightarrow> apply_updates now n successfulUpdates newOverlays
      | Some index \<Rightarrow>
          apply_updates now (Suc n) successfulUpdates
            (newOverlays[index := merged (newOverlays ! index) d (now n)]))"

text \<open>
  \<^verbatim>\<open>batchUpdateOverlays\<close>. The successful updates are the elements of the list whose
  response, at the same index, has status \<^verbatim>\<open>fulfilled\<close>. The \<^verbatim>\<open>catch\<close> branch is not
  reachable from a list of \<open>{id, data}\<close> pairs, since \<^verbatim>\<open>overlayAPI.batchUpdate\<close> never
  rejects; the warning logged when some element was rejected changes no state.
\<close>

definition successfulUpdates ::
  "(string \<times> jsobj) list \<Rightarrow> 'a settled list \<Rightarrow> (string \<times> jsobj) list" where
  "successfulUpdates updates responses =
     map (\<lambda>index. updates ! index)
       (filter (\<lambda>index. fulfilled (responses ! index)) [0..<length updates])"

definition batchUpdateOverlays ::
  "remote \<Rightarrow> (nat \<Rightarrow> string) \<Rightarrow> (string \<times> jsobj) list \<Rightarrow> store
     \<Rightarrow> jsval axios_response settled list settled \<times> store" where
  "batchUpdateOverlays srv now updates s =
     (case overlayAPI_batchUpdate srv updates s of
        (responses, s1) \<Rightarrow>
          (Fulfilled responses,
           s1\<lparr>overlays := apply_updates now 0 (successfulUpdates updates responses)
                              (overlays s1)\<rparr>))"

text \<open>
  \<^verbatim>\<open>toggleOverlayVisibility\<close>: returns at once when no record has the id; the
  \<^verbatim>\<open>catch\<close> only logs and rethrows.
\<close>

definition toggleOverlayVisibility ::
  "remote \<Rightarrow> (nat \<Rightarrow> string) \<Rightarrow> string \<Rightarrow> store \<Rightarrow> unit settled \<times> store" where
  "toggleOverlayVisibility srv now i s =
     (case find (\<lambda>ov. field ov ''_id'' = JStr i) (overlays s) of
        None \<Rightarrow> (Fulfilled (), s)
      | Some ov \<Rightarrow>
          updateOverlay srv now i [''visible'' \<mapsto> JBool (\<not> truthy (field ov ''visible''))] s)"

text \<open>\<^verbatim>\<open>getVisibleOverlays\<close>, and the same filter in the player's rendering path.\<close>

definition getVisibleOverlays :: "store \<Rightarrow> overlay list" where
  "getVisibleOverlays s = filter (\<lambda>ov. field ov ''visible'' \<noteq> JBool False) (overlays s)"

definition visibleOverlays :: "overlay list \<Rightarrow> overlay list" where
  "visibleOverlays ovs = filter (\<lambda>ov. field ov ''visible'' \<noteq> JBool False) ovs"



section \<open>The drag interaction of the video player\<close>

text \<open>
  The bounding rectangle of the video container, the drag state of the component and the
  two coordinates of a pointer event that the handler reads. These come from the DOM and
  are finite numbers.
\<close>

record DOMRect =
  rect_left :: real
  rect_top :: real
  rect_width :: real
  rect_height :: real

record drag_state =
  draggedOverlay :: "string option"
  isDragging :: bool
  dragOffset :: "real \<times> real"

record mouse_event =
  clientX :: real
  clientY :: real

text \<open>
  What one call of \<^verbatim>\<open>handleMouseMove\<close> does: nothing, a call of the update callback
  with an id and a patch, or a \<^verbatim>\<open>TypeError\<close> when the record has no \<^verbatim>\<open>size\<close> to read.
\<close>

datatype move_result = No_update | Throws_TypeError | Update string jsobj

text \<open>
  \<^verbatim>\<open>handleMouseMove\<close>. \<open>videoRect\<close> is \<open>None\<close> when the container is not mounted and
  \<open>onOverlayUpdate\<close> tells whether the callback was passed; an empty id is falsy.
\<close>

definition handleMouseMove ::
  "(string \<Rightarrow> jsnum) \<Rightarrow> drag_state \<Rightarrow> DOMRect option \<Rightarrow> overlay list \<Rightarrow> bool
     \<Rightarrow> mouse_event \<Rightarrow> move_result" where
  "handleMouseMove str2num st videoRect ovs onOverlayUpdate e =
     (case draggedOverlay st of
        None \<Rightarrow> No_update
      | Some dragged \<Rightarrow>
          if dragged = [] \<or> \<not> isDragging st then No_update
          else
            (case videoRect of
               None \<Rightarrow> No_update
             | Some rect \<Rightarrow>
                 (case find (\<lambda>ov. field ov ''_id'' = JStr dragged) ovs of
                    None \<Rightarrow> No_update
                  | Some ov \<Rightarrow>
                      (let newX = num_sub (num_sub (Fin (clientX e)) (Fin (rect_left rect)))
                                          (Fin (fst (dragOffset st)));
                           newY = num_sub (num_sub (Fin (clientY e)) (Fin (rect_top rect)))
                                          (Fin (snd (dragOffset st)))
                       in if nullish (field ov ''size'') then Throws_TypeError
                          else
                            (let maxX = num_sub (Fin (rect_width rect))
                                          (toNumber str2num (member (field ov ''size'') ''width''));
                                 maxY = num_sub (Fin (rect_height rect))
                                          (toNumber str2num (member (field ov ''size'') ''height''));
                                 constrainedX = Math_max (Fin 0) (Math_min newX maxX);
                                 constrainedY = Math_max (Fin 0) (Math_min newY maxY)
                             in if onOverlayUpdate
                                then Update dragged
                                       [''position'' \<mapsto>
                                          JObj [''x'' \<mapsto> JNum (Math_round constrainedX),
                                                ''y'' \<mapsto> JNum (Math_round constrainedY)]]
                                else No_update)))))"

section \<open>Notions used in the statements\<close>

text \<open>The request that \<^verbatim>\<open>overlayAPI.batchUpdate\<close> sends for one element of its list.\<close>

definition put_of :: "string \<times> jsobj \<Rightarrow> request" where
  "put_of u = PUT (''/overlays/'' @ fst u) (snd u)"

text \<open>
  The updates of a batch whose response is fulfilled, in the order of the list, and what
  it means that one update is merged into a collection: the collection keeps its length;
  when no record has the id of the update nothing changes; otherwise only the first
  record with that id changes, and it reads, property by property, as the old record
  overwritten by the patch with \<^verbatim>\<open>updated_at\<close> set to a reading of the clock.
\<close>

definition accepted :: "(string \<times> jsobj) list \<Rightarrow> 'a settled list \<Rightarrow> (string \<times> jsobj) list" where
  "accepted updates responses =
     map fst (filter (\<lambda>(u, r). fulfilled r) (zip updates responses))"

definition merged_into_first ::
  "(nat \<Rightarrow> string) \<Rightarrow> string \<times> jsobj \<Rightarrow> overlay list \<Rightarrow> overlay list \<Rightarrow> bool" where
  "merged_into_first now u before after =
     (length after = length before
      \<and> (if \<forall>ov \<in> set before. field ov ''_id'' \<noteq> JStr (fst u) then after = before
         else \<exists>j < length before.
                field (before ! j) ''_id'' = JStr (fst u)
                \<and> (\<forall>j' < j. field (before ! j') ''_id'' \<noteq> JStr (fst u))
                \<and> (\<forall>j' < length before. j' \<noteq> j \<longrightarrow> after ! j' = before ! j')
                \<and> (\<exists>n. \<forall>key.
                      field (after ! j) key =
                        (if key = ''updated_at'' then JStr (now n)
                         else case snd u key of
                                Some v \<Rightarrow> v
                              | None \<Rightarrow> field (before ! j) key))))"

text \<open>
  The clamp of the drag computation as the specification words it: a value inside the
  range is kept, a value outside moves to the nearer end, and an empty range (the overlay
  is larger than the container) collapses to its lower end. Rounding is to the nearest
  integer, halves upwards.
\<close>

definition clamp :: "real \<Rightarrow> real \<Rightarrow> real \<Rightarrow> real" where
  "clamp v lo hi = (if hi < lo then lo else if v < lo then lo else if hi < v then hi else v)"

definition round_half_up :: "real \<Rightarrow> real" where
  "round_half_up v = of_int \<lfloor>v + 1 / 2\<rfloor>"

text \<open>The patch \<^verbatim>\<open>{position: {x, y}}\<close>.\<close>

definition position_patch :: "real \<Rightarrow> real \<Rightarrow> jsobj" where
  "position_patch x y = [''position'' \<mapsto> JObj [''x'' \<mapsto> JNum (Fin x), ''y'' \<mapsto> JNum (Fin y)]]"

text \<open>
  The bounds of the specification's data model: the size of an overlay is a pair of
  numbers with width in \<open>(0, 1920]\<close> and height in \<open>(0, 1080]\<close>, its position a pair
  of non-negative numbers. A patch respects them when it leaves size and position out or
  gives them within the bounds; a remote store respects them when every collection it
  returns does.
\<close>

fun in_range :: "(real \<Rightarrow> bool) \<Rightarrow> jsval \<Rightarrow> bool" where
  "in_range P (JNum (Fin r)) = P r"
| "in_range P v = False"

definition size_ok :: "jsval \<Rightarrow> bool" where
  "size_ok sz =
     (in_range (\<lambda>w. 0 < w \<and> w \<le> 1920) (member sz ''width'')
      \<and> in_range (\<lambda>h. 0 < h \<and> h \<le> 1080) (member sz ''height''))"

definition position_ok :: "jsval \<Rightarrow> bool" where
  "position_ok pos =
     (in_range (\<lambda>x. 0 \<le> x) (member pos ''x'')
      \<and> in_range (\<lambda>y. 0 \<le> y) (member pos ''y''))"

definition within_bounds :: "overlay \<Rightarrow> bool" where
  "within_bounds ov = (size_ok (field ov ''size'') \<and> position_ok (field ov ''position''))"

definition patch_within_bounds :: "jsobj \<Rightarrow> bool" where
  "patch_within_bounds p =
     ((case p ''size'' of None \<Rightarrow> True | Some sz \<Rightarrow> size_ok sz)
      \<and> (case p ''position'' of None \<Rightarrow> True | Some pos \<Rightarrow> position_ok pos))"

definition remote_within_bounds :: "remote \<Rightarrow> bool" where
  "remote_within_bounds srv =
     (\<forall>rs data. list_reply srv rs = Fulfilled data \<longrightarrow> list_all within_bounds data)"

section \<open>Example data\<close>

text \<open>
  Three overlay records (the second has no \<^verbatim>\<open>visible\<close> property), a store holding them,
  patches, drafts and batches (one of them names the same id twice), a clock, remote
  stores that accept every request, reject every mutation, reject everything, or reject
  only the requests for overlay \<open>b\<close>, and drag states, container rectangles and pointer
  events, among them a drag whose subtraction has to round. The concrete instances of the
  theorems below are stated on these.
\<close>

definition overlay_A :: overlay where
  "overlay_A =
     [''_id'' \<mapsto> JStr ''a'', ''type'' \<mapsto> JStr ''text'', ''content'' \<mapsto> JStr ''Live'',
      ''position'' \<mapsto> JObj [''x'' \<mapsto> JNum (Fin 10), ''y'' \<mapsto> JNum (Fin 10)],
      ''size'' \<mapsto> JObj [''width'' \<mapsto> JNum (Fin 200), ''height'' \<mapsto> JNum (Fin 50)],
      ''visible'' \<mapsto> JBool True]"

definition overlay_B :: overlay where
  "overlay_B =
     [''_id'' \<mapsto> JStr ''b'', ''type'' \<mapsto> JStr ''logo'', ''content'' \<mapsto> JStr ''http://x/l.png'',
      ''position'' \<mapsto> JObj [''x'' \<mapsto> JNum (Fin 300), ''y'' \<mapsto> JNum (Fin 20)],
      ''size'' \<mapsto> JObj [''width'' \<mapsto> JNum (Fin 100), ''height'' \<mapsto> JNum (Fin 100)]]"

definition overlay_C :: overlay where
  "overlay_C =
     [''_id'' \<mapsto> JStr ''c'', ''type'' \<mapsto> JStr ''text'', ''content'' \<mapsto> JStr ''Score'',
      ''position'' \<mapsto> JObj [''x'' \<mapsto> JNum (Fin 0), ''y'' \<mapsto> JNum (Fin 400)],
      ''size'' \<mapsto> JObj [''width'' \<mapsto> JNum (Fin 120), ''height'' \<mapsto> JNum (Fin 40)],
      ''visible'' \<mapsto> JBool True]"

definition local_store :: store where
  "local_store = \<lparr>overlays = [overlay_A, overlay_B, overlay_C], loading = False,
                   error = JNull, sent = []\<rparr>"

definition move_patch :: jsobj where
  "move_patch = [''position'' \<mapsto> JObj [''x'' \<mapsto> JNum (Fin 50), ''y'' \<mapsto> JNum (Fin 60)]]"

definition clock :: "nat \<Rightarrow> string" where
  "clock n = ''2024-05-01T12:00:0'' @ (if n = 0 then ''0'' else ''1'') @ ''.000Z''"

definition outage :: api_error where
  "outage = \<lparr>response_data_error = JUndefined, message = JStr ''Network Error''\<rparr>"

definition accepting :: remote where
  "accepting = \<lparr>list_reply = (\<lambda>rs. Fulfilled [overlay_B]),
                 data_reply = (\<lambda>rs. Fulfilled JNull),
                 reply_status = (\<lambda>rs. 200)\<rparr>"

definition refusing :: remote where
  "refusing = \<lparr>list_reply = (\<lambda>rs. Fulfilled [overlay_B]),
                data_reply = (\<lambda>rs. Rejected outage),
                reply_status = (\<lambda>rs. 200)\<rparr>"

definition offline :: remote where
  "offline = \<lparr>list_reply = (\<lambda>rs. Rejected outage),
               data_reply = (\<lambda>rs. Rejected outage),
               reply_status = (\<lambda>rs. 0)\<rparr>"

fun path :: "request \<Rightarrow> string" where
  "path (GET p) = p"
| "path (POST p d) = p"
| "path (PUT p d) = p"
| "path (DELETE p) = p"

definition rejecting_b :: remote where
  "rejecting_b = \<lparr>list_reply = (\<lambda>rs. Fulfilled []),
                   data_reply = (\<lambda>rs. if path (last rs) = ''/overlays/b''
                                       then Rejected outage else Fulfilled JNull),
                   reply_status = (\<lambda>rs. 200)\<rparr>"

definition batch_updates :: "(string \<times> jsobj) list" where
  "batch_updates = [(''a'', move_patch), (''b'', [''visible'' \<mapsto> JBool False]),
                    (''c'', [''content'' \<mapsto> JStr ''Final''])]"

definition twice_a :: "(string \<times> jsobj) list" where
  "twice_a = [(''a'', [''content'' \<mapsto> JStr ''one'']), (''a'', [''content'' \<mapsto> JStr ''two''])]"

definition ok_response :: "jsval axios_response" where
  "ok_response = \<lparr>response_data = JNull, response_status = 200\<rparr>"

definition drag_A :: drag_state where
  "drag_A = \<lparr>draggedOverlay = Some ''a'', isDragging = True, dragOffset = (10, 5)\<rparr>"

definition drag_tiny :: drag_state where
  "drag_tiny = \<lparr>draggedOverlay = Some ''a'', isDragging = True, dragOffset = (1 / 2 ^ 55, 5)\<rparr>"

definition half_pixel_rect :: DOMRect where
  "half_pixel_rect = \<lparr>rect_left = 1 / 2, rect_top = 50, rect_width = 800, rect_height = 450\<rparr>"

definition video_rect :: "real \<Rightarrow> DOMRect" where
  "video_rect w = \<lparr>rect_left = 100, rect_top = 50, rect_width = w, rect_height = 450\<rparr>"

definition pointer_at :: "real \<Rightarrow> mouse_event" where
  "pointer_at x = \<lparr>clientX = x, clientY = 75\<rparr>"

definition no_numeric_strings :: "string \<Rightarrow> jsnum" where
  "no_numeric_strings s = NaN"

definition not_found :: api_error where
  "not_found = \<lparr>response_data_error = JStr ''Overlay not found'',
                 message = JStr ''Request failed with status code 404''\<rparr>"

definition silent_error :: api_error where
  "silent_error = \<lparr>response_data_error = JUndefined, message = JStr ''''\<rparr>"



definition text_draft :: jsobj where
  "text_draft =
     [''type'' \<mapsto> JStr ''text'', ''content'' \<mapsto> JStr ''Score'',
      ''position'' \<mapsto> JObj [''x'' \<mapsto> JNum (Fin 0), ''y'' \<mapsto> JNum (Fin 400)],
      ''size'' \<mapsto> JObj [''width'' \<mapsto> JNum (Fin 120), ''height'' \<mapsto> JNum (Fin 40)]]"

definition oversize_patch :: jsobj where
  "oversize_patch = [''size'' \<mapsto> JObj [''width'' \<mapsto> JNum (Fin 5000), ''height'' \<mapsto> JNum (Fin 50)]]"

section \<open>Properties of the store operations\<close>

lemma field_merged:
  "field (merged ov p stamp) k =
     (if k = ''updated_at'' then JStr stamp
      else case p k of Some v \<Rightarrow> v | None \<Rightarrow> field ov k)"
  by (simp add: merged_def field_def map_add_def split: option.splits)

lemma length_merge_matching [simp]:
  "length (merge_matching now n i p ovs) = length ovs"
  by (induction ovs arbitrary: n) simp_all

lemma nth_merge_matching:
  "j < length ovs \<Longrightarrow>
   merge_matching now n i p ovs ! j =
     (if field (ovs ! j) ''_id'' = JStr i
      then merged (ovs ! j) p
             (now (n + length (filter (\<lambda>ov. field ov ''_id'' = JStr i) (take j ovs))))
      else ovs ! j)"
proof (induction ovs arbitrary: n j)
  case Nil
  then show ?case by simp
next
  case (Cons ov ovs)
  show ?case
  proof (cases j)
    case 0
    then show ?thesis by simp
  next
    case (Suc j')
    with Cons.prems have "j' < length ovs" by simp
    from Cons.IH [OF this] Suc show ?thesis by simp
  qed
qed

lemma merge_matching_absent:
  "\<forall>ov \<in> set ovs. field ov ''_id'' \<noteq> JStr i \<Longrightarrow> merge_matching now n i p ovs = ovs"
  by (induction ovs arbitrary: n) simp_all

lemma fetchOverlays_fulfilled:
  "list_reply srv (sent s @ [GET ''/overlays'']) = Fulfilled data \<Longrightarrow>
   fetchOverlays srv s =
     s\<lparr>overlays := data, loading := False, error := JNull, sent := sent s @ [GET ''/overlays'']\<rparr>"
  by (simp add: fetchOverlays_def overlayAPI_getAll_def api_get_def respond_list_def Let_def)

lemma fetchOverlays_rejected:
  "list_reply srv (sent s @ [GET ''/overlays'']) = Rejected err \<Longrightarrow>
   fetchOverlays srv s =
     s\<lparr>loading := False, error := handleError err (JStr ''Failed to fetch overlays''),
       sent := sent s @ [GET ''/overlays'']\<rparr>"
  by (simp add: fetchOverlays_def overlayAPI_getAll_def api_get_def respond_list_def Let_def)

lemma sent_fetchOverlays [simp]:
  "sent (fetchOverlays srv s) = sent s @ [GET ''/overlays'']"
  by (cases "list_reply srv (sent s @ [GET ''/overlays''])")
     (simp_all add: fetchOverlays_fulfilled fetchOverlays_rejected)

lemma truthy_handleError: "d \<noteq> [] \<Longrightarrow> truthy (handleError err (JStr d))"
  by (simp add: handleError_def)

text \<open>
  C6. When the request of \<^verbatim>\<open>fetchOverlays\<close> is rejected, the local collection is
  exactly the previous one, and the error state holds the extracted message, which is a
  truthy value; when the request is fulfilled, the collection is the returned array as a
  whole and the error state is cleared. In both cases the loading flag is reset.
\<close>

theorem fetchOverlays_frame:
  "(list_reply srv (sent s @ [GET ''/overlays'']) = Rejected err \<longrightarrow>
      overlays (fetchOverlays srv s) = overlays s
      \<and> error (fetchOverlays srv s) = handleError err (JStr ''Failed to fetch overlays'')
      \<and> truthy (error (fetchOverlays srv s))
      \<and> \<not> loading (fetchOverlays srv s))
   \<and> (list_reply srv (sent s @ [GET ''/overlays'']) = Fulfilled data \<longrightarrow>
      overlays (fetchOverlays srv s) = data
      \<and> error (fetchOverlays srv s) = JNull
      \<and> \<not> loading (fetchOverlays srv s))"
  by (simp add: fetchOverlays_fulfilled fetchOverlays_rejected truthy_handleError)

theorem fetchOverlays_frame_witness:
  "list_reply offline (sent local_store @ [GET ''/overlays'']) = Rejected outage
   \<and> overlays (fetchOverlays offline local_store) = [overlay_A, overlay_B, overlay_C]
   \<and> error (fetchOverlays offline local_store) = JStr ''Network Error''
   \<and> list_reply accepting (sent local_store @ [GET ''/overlays'']) = Fulfilled [overlay_B]
   \<and> overlays (fetchOverlays accepting local_store) = [overlay_B]"
proof -
  have bad: "list_reply offline (sent local_store @ [GET ''/overlays'']) = Rejected outage"
    by (simp add: offline_def)
  have ok: "list_reply accepting (sent local_store @ [GET ''/overlays'']) = Fulfilled [overlay_B]"
    by (simp add: accepting_def)
  from fetchOverlays_frame [of offline local_store outage "[]"] bad
  have "overlays (fetchOverlays offline local_store) = overlays local_store"
    and "error (fetchOverlays offline local_store)
           = handleError outage (JStr ''Failed to fetch overlays'')"
    by blast+
  moreover from fetchOverlays_frame [of accepting local_store outage "[overlay_B]"] ok
  have "overlays (fetchOverlays accepting local_store) = [overlay_B]"
    by blast
  ultimately show ?thesis
    using bad ok by (simp add: local_store_def handleError_def outage_def)
qed

lemma updateOverlay_fulfilled:
  "data_reply srv (sent s @ [PUT (''/overlays/'' @ i) p]) = Fulfilled r \<Longrightarrow>
   updateOverlay srv now i p s =
     (Fulfilled (),
      s\<lparr>overlays := merge_matching now 0 i p (overlays s),
        sent := sent s @ [PUT (''/overlays/'' @ i) p]\<rparr>)"
  by (simp add: updateOverlay_def overlayAPI_update_def api_put_def respond_def Let_def)

lemma updateOverlay_rejected:
  "data_reply srv (sent s @ [PUT (''/overlays/'' @ i) p]) = Rejected err \<Longrightarrow>
   updateOverlay srv now i p s =
     (Rejected err,
      (fetchOverlays srv (s\<lparr>sent := sent s @ [PUT (''/overlays/'' @ i) p]\<rparr>))
        \<lparr>error := handleError err (JStr ''Failed to update overlay'')\<rparr>)"
  by (simp add: updateOverlay_def overlayAPI_update_def api_put_def respond_def Let_def)

text \<open>
  C1. When the \<^verbatim>\<open>PUT\<close> of \<^verbatim>\<open>updateOverlay\<close> is fulfilled, no other request is
  sent, the collection keeps its length, every record whose \<^verbatim>\<open>_id\<close> is the given id
  reads, property by property, as the old record overwritten by the patch, with
  \<^verbatim>\<open>updated_at\<close> set to a fresh reading of the clock, and every other record is the
  old one. When the \<^verbatim>\<open>PUT\<close> is rejected, the call rejects with that error after one
  \<^verbatim>\<open>GET /overlays\<close>, and the collection is what \<^verbatim>\<open>fetchOverlays\<close> leaves: the fetched
  array when the fetch is fulfilled, the previous collection when the fetch is rejected
  too; the patch is merged in neither case.
\<close>

theorem updateOverlay_optimistic_then_correct:
  "(data_reply srv (sent s @ [PUT (''/overlays/'' @ i) p]) = Fulfilled r \<longrightarrow>
      fst (updateOverlay srv now i p s) = Fulfilled ()
      \<and> sent (snd (updateOverlay srv now i p s)) = sent s @ [PUT (''/overlays/'' @ i) p]
      \<and> length (overlays (snd (updateOverlay srv now i p s))) = length (overlays s)
      \<and> (\<forall>j < length (overlays s).
            if field (overlays s ! j) ''_id'' = JStr i
            then \<forall>k. field (overlays (snd (updateOverlay srv now i p s)) ! j) k =
                   (if k = ''updated_at''
                    then JStr (now (length (filter (\<lambda>ov. field ov ''_id'' = JStr i)
                                               (take j (overlays s)))))
                    else case p k of Some v \<Rightarrow> v | None \<Rightarrow> field (overlays s ! j) k)
            else overlays (snd (updateOverlay srv now i p s)) ! j = overlays s ! j))
   \<and> (data_reply srv (sent s @ [PUT (''/overlays/'' @ i) p]) = Rejected err \<longrightarrow>
      fst (updateOverlay srv now i p s) = Rejected err
      \<and> sent (snd (updateOverlay srv now i p s)) =
          sent s @ [PUT (''/overlays/'' @ i) p, GET ''/overlays'']
      \<and> overlays (snd (updateOverlay srv now i p s)) =
          overlays (fetchOverlays srv (s\<lparr>sent := sent s @ [PUT (''/overlays/'' @ i) p]\<rparr>))
      \<and> (\<forall>data. list_reply srv (sent s @ [PUT (''/overlays/'' @ i) p, GET ''/overlays''])
                    = Fulfilled data \<longrightarrow>
            overlays (snd (updateOverlay srv now i p s)) = data)
      \<and> (\<forall>err'. list_reply srv (sent s @ [PUT (''/overlays/'' @ i) p, GET ''/overlays''])
                    = Rejected err' \<longrightarrow>
            overlays (snd (updateOverlay srv now i p s)) = overlays s)
      \<and> error (snd (updateOverlay srv now i p s)) =
          handleError err (JStr ''Failed to update overlay''))"
proof (intro conjI impI)
  assume ok: "data_reply srv (sent s @ [PUT (''/overlays/'' @ i) p]) = Fulfilled r"
  note upd = updateOverlay_fulfilled [OF ok, of now]
  show "fst (updateOverlay srv now i p s) = Fulfilled ()"
    by (simp add: upd)
  show "sent (snd (updateOverlay srv now i p s)) = sent s @ [PUT (''/overlays/'' @ i) p]"
    by (simp add: upd)
  show "length (overlays (snd (updateOverlay srv now i p s))) = length (overlays s)"
    by (simp add: upd)
  show "\<forall>j < length (overlays s).
            if field (overlays s ! j) ''_id'' = JStr i
            then \<forall>k. field (overlays (snd (updateOverlay srv now i p s)) ! j) k =
                   (if k = ''updated_at''
                    then JStr (now (length (filter (\<lambda>ov. field ov ''_id'' = JStr i)
                                               (take j (overlays s)))))
                    else case p k of Some v \<Rightarrow> v | None \<Rightarrow> field (overlays s ! j) k)
            else overlays (snd (updateOverlay srv now i p s)) ! j = overlays s ! j"
    by (simp add: upd nth_merge_matching field_merged)
next
  assume bad: "data_reply srv (sent s @ [PUT (''/overlays/'' @ i) p]) = Rejected err"
  note upd = updateOverlay_rejected [OF bad, of now]
  let ?s1 = "s\<lparr>sent := sent s @ [PUT (''/overlays/'' @ i) p]\<rparr>"
  show "fst (updateOverlay srv now i p s) = Rejected err"
    by (simp add: upd)
  show "sent (snd (updateOverlay srv now i p s)) =
          sent s @ [PUT (''/overlays/'' @ i) p, GET ''/overlays'']"
    by (simp add: upd)
  show "overlays (snd (updateOverlay srv now i p s)) = overlays (fetchOverlays srv ?s1)"
    by (simp add: upd)
  show "\<forall>data. list_reply srv (sent s @ [PUT (''/overlays/'' @ i) p, GET ''/overlays''])
                    = Fulfilled data \<longrightarrow>
            overlays (snd (updateOverlay srv now i p s)) = data"
    by (simp add: upd fetchOverlays_fulfilled)
  show "\<forall>err'. list_reply srv (sent s @ [PUT (''/overlays/'' @ i) p, GET ''/overlays''])
                    = Rejected err' \<longrightarrow>
            overlays (snd (updateOverlay srv now i p s)) = overlays s"
    by (simp add: upd fetchOverlays_rejected)
  show "error (snd (updateOverlay srv now i p s)) =
          handleError err (JStr ''Failed to update overlay'')"
    by (simp add: upd)
qed


theorem updateOverlay_optimistic_then_correct_witness:
  "data_reply accepting (sent local_store @ [PUT (''/overlays/'' @ ''a'') move_patch]) = Fulfilled JNull
   \<and> field (overlays local_store ! 0) ''position''
         = JObj [''x'' \<mapsto> JNum (Fin 10), ''y'' \<mapsto> JNum (Fin 10)]
   \<and> field (overlays (snd (updateOverlay accepting clock ''a'' move_patch local_store)) ! 0) ''position''
         = JObj [''x'' \<mapsto> JNum (Fin 50), ''y'' \<mapsto> JNum (Fin 60)]
   \<and> data_reply refusing (sent local_store @ [PUT (''/overlays/'' @ ''a'') move_patch]) = Rejected outage
   \<and> overlays (snd (updateOverlay refusing clock ''a'' move_patch local_store)) = [overlay_B]"
proof -
  let ?put = "PUT (''/overlays/'' @ ''a'') move_patch"
  have ok: "data_reply accepting (sent local_store @ [?put]) = Fulfilled JNull"
    by (simp add: accepting_def)
  have bad: "data_reply refusing (sent local_store @ [?put]) = Rejected outage"
    by (simp add: refusing_def)
  have refetch: "list_reply refusing (sent local_store @ [?put, GET ''/overlays''])
                   = Fulfilled [overlay_B]"
    by (simp add: refusing_def)
  have before: "field (overlays local_store ! 0) ''position''
                  = JObj [''x'' \<mapsto> JNum (Fin 10), ''y'' \<mapsto> JNum (Fin 10)]"
    by (simp add: local_store_def overlay_A_def field_def)
  from updateOverlay_optimistic_then_correct
         [of accepting local_store "''a''" move_patch JNull clock outage] ok
  have after: "field (overlays (snd (updateOverlay accepting clock ''a'' move_patch local_store)) ! 0)
                 ''position''
               = JObj [''x'' \<mapsto> JNum (Fin 50), ''y'' \<mapsto> JNum (Fin 60)]"
    by (simp add: local_store_def overlay_A_def move_patch_def field_def All_less_Suc)
  from updateOverlay_optimistic_then_correct
         [of refusing local_store "''a''" move_patch JNull clock outage] bad refetch
  have "overlays (snd (updateOverlay refusing clock ''a'' move_patch local_store)) = [overlay_B]"
    by blast
  with ok bad before after show ?thesis by simp
qed

lemma find_None_absent:
  "find P xs = None \<longleftrightarrow> (\<forall>x \<in> set xs. \<not> P x)"
  by (auto simp add: find_None_iff)

text \<open>
  C10. When no local record has the given id, \<^verbatim>\<open>updateOverlay\<close> still sends the
  \<^verbatim>\<open>PUT\<close> for that id as its first request, and when that request is fulfilled the
  call fulfils and the whole state is the previous one, apart from the recorded request:
  the collection, the error state and the loading flag are untouched.
\<close>

theorem updateOverlay_absent_id:
  "(\<forall>ov \<in> set (overlays s). field ov ''_id'' \<noteq> JStr i) \<longrightarrow>
     take (Suc (length (sent s))) (sent (snd (updateOverlay srv now i p s)))
       = sent s @ [PUT (''/overlays/'' @ i) p]
     \<and> (\<forall>r. data_reply srv (sent s @ [PUT (''/overlays/'' @ i) p]) = Fulfilled r \<longrightarrow>
           updateOverlay srv now i p s
             = (Fulfilled (), s\<lparr>sent := sent s @ [PUT (''/overlays/'' @ i) p]\<rparr>))"
proof (intro impI conjI allI)
  assume absent: "\<forall>ov \<in> set (overlays s). field ov ''_id'' \<noteq> JStr i"
  show "take (Suc (length (sent s))) (sent (snd (updateOverlay srv now i p s)))
          = sent s @ [PUT (''/overlays/'' @ i) p]"
    by (cases "data_reply srv (sent s @ [PUT (''/overlays/'' @ i) p])")
       (simp_all add: updateOverlay_fulfilled updateOverlay_rejected)
  fix r
  assume ok: "data_reply srv (sent s @ [PUT (''/overlays/'' @ i) p]) = Fulfilled r"
  show "updateOverlay srv now i p s
          = (Fulfilled (), s\<lparr>sent := sent s @ [PUT (''/overlays/'' @ i) p]\<rparr>)"
    by (simp add: updateOverlay_fulfilled [OF ok] merge_matching_absent [OF absent])
qed

theorem updateOverlay_absent_id_witness:
  "field overlay_A ''_id'' \<noteq> JStr ''zz'' \<and> field overlay_B ''_id'' \<noteq> JStr ''zz''
   \<and> field overlay_C ''_id'' \<noteq> JStr ''zz''
   \<and> data_reply accepting (sent local_store @ [PUT (''/overlays/'' @ ''zz'') move_patch])
        = Fulfilled JNull
   \<and> updateOverlay accepting clock ''zz'' move_patch local_store
        = (Fulfilled (), local_store\<lparr>sent := [PUT ''/overlays/zz'' move_patch]\<rparr>)"
proof -
  have ids: "field overlay_A ''_id'' \<noteq> JStr ''zz''" "field overlay_B ''_id'' \<noteq> JStr ''zz''"
    "field overlay_C ''_id'' \<noteq> JStr ''zz''"
    by (simp_all add: overlay_A_def overlay_B_def overlay_C_def field_def)
  then have absent: "\<forall>ov \<in> set (overlays local_store). field ov ''_id'' \<noteq> JStr ''zz''"
    by (simp add: local_store_def)
  have ok: "data_reply accepting (sent local_store @ [PUT (''/overlays/'' @ ''zz'') move_patch])
              = Fulfilled JNull"
    by (simp add: accepting_def)
  from updateOverlay_absent_id [of local_store "''zz''" accepting clock move_patch] absent ok
  have "updateOverlay accepting clock ''zz'' move_patch local_store
          = (Fulfilled (),
             local_store\<lparr>sent := sent local_store @ [PUT (''/overlays/'' @ ''zz'') move_patch]\<rparr>)"
    by blast
  then have "updateOverlay accepting clock ''zz'' move_patch local_store
          = (Fulfilled (), local_store\<lparr>sent := [PUT ''/overlays/zz'' move_patch]\<rparr>)"
    by (simp add: local_store_def)
  with ids ok show ?thesis by simp
qed

lemma toggle_absent:
  "find (\<lambda>ov. field ov ''_id'' = JStr i) (overlays s) = None \<Longrightarrow>
   toggleOverlayVisibility srv now i s = (Fulfilled (), s)"
  by (simp add: toggleOverlayVisibility_def)

lemma toggle_present:
  "find (\<lambda>ov. field ov ''_id'' = JStr i) (overlays s) = Some ov \<Longrightarrow>
   toggleOverlayVisibility srv now i s
     = updateOverlay srv now i [''visible'' \<mapsto> JBool (\<not> truthy (field ov ''visible''))] s"
  by (simp add: toggleOverlayVisibility_def)

text \<open>
  C7. When the first record with the given id has \<^verbatim>\<open>visible = true\<close> and the
  \<^verbatim>\<open>PUT\<close> is fulfilled, \<^verbatim>\<open>toggleOverlayVisibility\<close> sends that one request with the
  patch \<^verbatim>\<open>{visible: false}\<close>; afterwards every record with the id reads
  \<^verbatim>\<open>visible = false\<close>, a fresh \<^verbatim>\<open>updated_at\<close> and its old value at every other
  property, and every record with another id is the old one. When no record has the id,
  the call fulfils with the state unchanged and nothing sent.
\<close>

theorem toggleOverlayVisibility_frame:
  "(find (\<lambda>ov. field ov ''_id'' = JStr i) (overlays s) = Some ov
      \<and> field ov ''visible'' = JBool True
      \<and> data_reply srv (sent s @ [PUT (''/overlays/'' @ i) [''visible'' \<mapsto> JBool False]])
           = Fulfilled r \<longrightarrow>
      fst (toggleOverlayVisibility srv now i s) = Fulfilled ()
      \<and> sent (snd (toggleOverlayVisibility srv now i s))
           = sent s @ [PUT (''/overlays/'' @ i) [''visible'' \<mapsto> JBool False]]
      \<and> length (overlays (snd (toggleOverlayVisibility srv now i s))) = length (overlays s)
      \<and> (\<forall>j < length (overlays s).
            if field (overlays s ! j) ''_id'' = JStr i
            then \<forall>k. field (overlays (snd (toggleOverlayVisibility srv now i s)) ! j) k =
                   (if k = ''visible'' then JBool False
                    else if k = ''updated_at''
                    then JStr (now (length (filter (\<lambda>ov. field ov ''_id'' = JStr i)
                                               (take j (overlays s)))))
                    else field (overlays s ! j) k)
            else overlays (snd (toggleOverlayVisibility srv now i s)) ! j = overlays s ! j))
   \<and> (find (\<lambda>ov. field ov ''_id'' = JStr i) (overlays s) = None \<longrightarrow>
        toggleOverlayVisibility srv now i s = (Fulfilled (), s))"
proof (intro conjI impI; (elim conjE)?)
  assume present: "find (\<lambda>ov. field ov ''_id'' = JStr i) (overlays s) = Some ov"
    and vis: "field ov ''visible'' = JBool True"
    and ok: "data_reply srv (sent s @ [PUT (''/overlays/'' @ i) [''visible'' \<mapsto> JBool False]])
               = Fulfilled r"
  have tog: "toggleOverlayVisibility srv now i s
               = updateOverlay srv now i [''visible'' \<mapsto> JBool False] s"
    by (simp add: toggle_present [OF present] vis)
  note upd = updateOverlay_fulfilled [OF ok, of now]
  show "fst (toggleOverlayVisibility srv now i s) = Fulfilled ()"
    by (simp add: tog upd)
  show "sent (snd (toggleOverlayVisibility srv now i s))
           = sent s @ [PUT (''/overlays/'' @ i) [''visible'' \<mapsto> JBool False]]"
    by (simp add: tog upd)
  show "length (overlays (snd (toggleOverlayVisibility srv now i s))) = length (overlays s)"
    by (simp add: tog upd)
  show "\<forall>j < length (overlays s).
            if field (overlays s ! j) ''_id'' = JStr i
            then \<forall>k. field (overlays (snd (toggleOverlayVisibility srv now i s)) ! j) k =
                   (if k = ''visible'' then JBool False
                    else if k = ''updated_at''
                    then JStr (now (length (filter (\<lambda>ov. field ov ''_id'' = JStr i)
                                               (take j (overlays s)))))
                    else field (overlays s ! j) k)
            else overlays (snd (toggleOverlayVisibility srv now i s)) ! j = overlays s ! j"
    by (simp add: tog upd nth_merge_matching field_merged)
next
  assume "find (\<lambda>ov. field ov ''_id'' = JStr i) (overlays s) = None"
  then show "toggleOverlayVisibility srv now i s = (Fulfilled (), s)"
    by (rule toggle_absent)
qed


theorem toggleOverlayVisibility_frame_witness:
  "find (\<lambda>ov. field ov ''_id'' = JStr ''a'') (overlays local_store) = Some overlay_A
   \<and> field overlay_A ''visible'' = JBool True
   \<and> field (overlays (snd (toggleOverlayVisibility accepting clock ''a'' local_store)) ! 0)
        ''visible'' = JBool False
   \<and> field (overlays (snd (toggleOverlayVisibility accepting clock ''a'' local_store)) ! 0)
        ''content'' = JStr ''Live''
   \<and> field (overlays (snd (toggleOverlayVisibility accepting clock ''a'' local_store)) ! 0)
        ''updated_at'' = JStr ''2024-05-01T12:00:00.000Z''
   \<and> overlays (snd (toggleOverlayVisibility accepting clock ''a'' local_store)) ! 1 = overlay_B
   \<and> find (\<lambda>ov. field ov ''_id'' = JStr ''zz'') (overlays local_store) = None
   \<and> toggleOverlayVisibility accepting clock ''zz'' local_store = (Fulfilled (), local_store)"
proof -
  have present: "find (\<lambda>ov. field ov ''_id'' = JStr ''a'') (overlays local_store) = Some overlay_A"
    by (simp add: local_store_def overlay_A_def field_def)
  have vis: "field overlay_A ''visible'' = JBool True"
    by (simp add: overlay_A_def field_def)
  have ok: "data_reply accepting
              (sent local_store @ [PUT (''/overlays/'' @ ''a'') [''visible'' \<mapsto> JBool False]])
            = Fulfilled JNull"
    by (simp add: accepting_def)
  have absent: "find (\<lambda>ov. field ov ''_id'' = JStr ''zz'') (overlays local_store) = None"
    by (simp add: local_store_def overlay_A_def overlay_B_def overlay_C_def field_def)
  note t = toggleOverlayVisibility_frame [of "''a''" local_store overlay_A accepting JNull clock]
  from t present vis ok
  have "\<forall>j < length (overlays local_store).
            if field (overlays local_store ! j) ''_id'' = JStr ''a''
            then \<forall>k. field (overlays (snd (toggleOverlayVisibility accepting clock ''a'' local_store)) ! j) k =
                   (if k = ''visible'' then JBool False
                    else if k = ''updated_at''
                    then JStr (clock (length (filter (\<lambda>ov. field ov ''_id'' = JStr ''a'')
                                               (take j (overlays local_store)))))
                    else field (overlays local_store ! j) k)
            else overlays (snd (toggleOverlayVisibility accepting clock ''a'' local_store)) ! j
                   = overlays local_store ! j"
    by blast
  then have after:
    "field (overlays (snd (toggleOverlayVisibility accepting clock ''a'' local_store)) ! 0)
        ''visible'' = JBool False"
    "field (overlays (snd (toggleOverlayVisibility accepting clock ''a'' local_store)) ! 0)
        ''content'' = JStr ''Live''"
    "field (overlays (snd (toggleOverlayVisibility accepting clock ''a'' local_store)) ! 0)
        ''updated_at'' = JStr ''2024-05-01T12:00:00.000Z''"
    "overlays (snd (toggleOverlayVisibility accepting clock ''a'' local_store)) ! 1 = overlay_B"
    by (simp_all add: local_store_def overlay_A_def overlay_B_def field_def clock_def
          All_less_Suc)
  from toggleOverlayVisibility_frame [of "''zz''" local_store overlay_A accepting JNull clock]
    absent
  have "toggleOverlayVisibility accepting clock ''zz'' local_store = (Fulfilled (), local_store)"
    by blast
  with present vis after absent show ?thesis by simp
qed

lemma find_Some_member: "find P xs = Some x \<Longrightarrow> x \<in> set xs \<and> P x"
  by (induction xs) (auto split: if_splits)

text \<open>
  C9. A record whose \<^verbatim>\<open>visible\<close> property is absent is kept by
  \<^verbatim>\<open>getVisibleOverlays\<close> and by the rendering filter. Toggling its id is
  \<^verbatim>\<open>updateOverlay\<close> with the patch \<^verbatim>\<open>{visible: true}\<close>, whose \<^verbatim>\<open>PUT\<close> is the first
  request sent; when it is fulfilled, every record with the id reads
  \<^verbatim>\<open>visible = true\<close> and is still among the visible overlays.
\<close>

theorem toggleOverlayVisibility_absent_visible:
  "find (\<lambda>ov. field ov ''_id'' = JStr i) (overlays s) = Some ov
     \<and> field ov ''visible'' = JUndefined \<longrightarrow>
   ov \<in> set (getVisibleOverlays s)
   \<and> ov \<in> set (visibleOverlays (overlays s))
   \<and> toggleOverlayVisibility srv now i s
       = updateOverlay srv now i [''visible'' \<mapsto> JBool True] s
   \<and> take (Suc (length (sent s))) (sent (snd (toggleOverlayVisibility srv now i s)))
       = sent s @ [PUT (''/overlays/'' @ i) [''visible'' \<mapsto> JBool True]]
   \<and> (\<forall>r. data_reply srv (sent s @ [PUT (''/overlays/'' @ i) [''visible'' \<mapsto> JBool True]])
             = Fulfilled r \<longrightarrow>
         (\<forall>j < length (overlays s).
            field (overlays s ! j) ''_id'' = JStr i \<longrightarrow>
              field (overlays (snd (toggleOverlayVisibility srv now i s)) ! j) ''visible''
                = JBool True
              \<and> overlays (snd (toggleOverlayVisibility srv now i s)) ! j
                  \<in> set (getVisibleOverlays (snd (toggleOverlayVisibility srv now i s)))))"
proof (intro impI, elim conjE)
  assume present: "find (\<lambda>ov. field ov ''_id'' = JStr i) (overlays s) = Some ov"
    and vis: "field ov ''visible'' = JUndefined"
  let ?p = "[''visible'' \<mapsto> JBool True]"
  have tog: "toggleOverlayVisibility srv now i s = updateOverlay srv now i ?p s"
    by (simp add: toggle_present [OF present] vis)
  from find_Some_member [OF present] have mem: "ov \<in> set (overlays s)" by simp
  have shown: "ov \<in> set (getVisibleOverlays s)" "ov \<in> set (visibleOverlays (overlays s))"
    using mem vis by (simp_all add: getVisibleOverlays_def visibleOverlays_def)
  have req: "take (Suc (length (sent s))) (sent (snd (toggleOverlayVisibility srv now i s)))
               = sent s @ [PUT (''/overlays/'' @ i) ?p]"
    unfolding tog
    by (cases "data_reply srv (sent s @ [PUT (''/overlays/'' @ i) ?p])")
       (simp_all add: updateOverlay_fulfilled updateOverlay_rejected)
  have after: "field (overlays (snd (toggleOverlayVisibility srv now i s)) ! j) ''visible''
                = JBool True
              \<and> overlays (snd (toggleOverlayVisibility srv now i s)) ! j
                  \<in> set (getVisibleOverlays (snd (toggleOverlayVisibility srv now i s)))"
    if ok: "data_reply srv (sent s @ [PUT (''/overlays/'' @ i) ?p]) = Fulfilled r"
      and j: "j < length (overlays s)" and idj: "field (overlays s ! j) ''_id'' = JStr i"
    for r j
  proof -
    let ?new = "overlays (snd (toggleOverlayVisibility srv now i s))"
    have new: "?new = merge_matching now 0 i ?p (overlays s)"
      by (simp add: tog updateOverlay_fulfilled [OF ok])
    have v: "field (?new ! j) ''visible'' = JBool True"
      by (simp add: new nth_merge_matching [OF j] idj field_merged)
    have "?new ! j \<in> set ?new"
      using j by (simp add: new)
    with v show ?thesis
      by (simp add: getVisibleOverlays_def)
  qed
  from shown tog req after
  show "ov \<in> set (getVisibleOverlays s)
   \<and> ov \<in> set (visibleOverlays (overlays s))
   \<and> toggleOverlayVisibility srv now i s
       = updateOverlay srv now i [''visible'' \<mapsto> JBool True] s
   \<and> take (Suc (length (sent s))) (sent (snd (toggleOverlayVisibility srv now i s)))
       = sent s @ [PUT (''/overlays/'' @ i) [''visible'' \<mapsto> JBool True]]
   \<and> (\<forall>r. data_reply srv (sent s @ [PUT (''/overlays/'' @ i) [''visible'' \<mapsto> JBool True]])
             = Fulfilled r \<longrightarrow>
         (\<forall>j < length (overlays s).
            field (overlays s ! j) ''_id'' = JStr i \<longrightarrow>
              field (overlays (snd (toggleOverlayVisibility srv now i s)) ! j) ''visible''
                = JBool True
              \<and> overlays (snd (toggleOverlayVisibility srv now i s)) ! j
                  \<in> set (getVisibleOverlays (snd (toggleOverlayVisibility srv now i s)))))"
    by blast
qed

theorem toggleOverlayVisibility_absent_visible_witness:
  "find (\<lambda>ov. field ov ''_id'' = JStr ''b'') (overlays local_store) = Some overlay_B
   \<and> field overlay_B ''visible'' = JUndefined
   \<and> overlay_B \<in> set (getVisibleOverlays local_store)
   \<and> sent (snd (toggleOverlayVisibility accepting clock ''b'' local_store))
        = [PUT ''/overlays/b'' [''visible'' \<mapsto> JBool True]]
   \<and> field (overlays (snd (toggleOverlayVisibility accepting clock ''b'' local_store)) ! 1)
        ''visible'' = JBool True"
proof -
  have present: "find (\<lambda>ov. field ov ''_id'' = JStr ''b'') (overlays local_store) = Some overlay_B"
    by (simp add: local_store_def overlay_A_def overlay_B_def field_def)
  have vis: "field overlay_B ''visible'' = JUndefined"
    by (simp add: overlay_B_def field_def)
  have ok: "data_reply accepting
              (sent local_store @ [PUT (''/overlays/'' @ ''b'') [''visible'' \<mapsto> JBool True]])
            = Fulfilled JNull"
    by (simp add: accepting_def)
  have j: "1 < length (overlays local_store)"
    "field (overlays local_store ! 1) ''_id'' = JStr ''b''"
    by (simp_all add: local_store_def overlay_B_def field_def)
  note t = toggleOverlayVisibility_absent_visible [of "''b''" local_store overlay_B accepting clock]
  from t present vis have shown: "overlay_B \<in> set (getVisibleOverlays local_store)"
    by blast
  from t present vis
  have tog: "toggleOverlayVisibility accepting clock ''b'' local_store
               = updateOverlay accepting clock ''b'' [''visible'' \<mapsto> JBool True] local_store"
    by blast
  have req: "sent (snd (toggleOverlayVisibility accepting clock ''b'' local_store))
               = [PUT ''/overlays/b'' [''visible'' \<mapsto> JBool True]]"
    unfolding tog updateOverlay_fulfilled [OF ok]
    by (simp add: local_store_def)
  from t present vis ok j
  have "field (overlays (snd (toggleOverlayVisibility accepting clock ''b'' local_store)) ! 1)
          ''visible'' = JBool True"
    by blast
  with present vis shown req show ?thesis by simp
qed

section \<open>Batch updates\<close>

lemma batchUpdate_frame:
  "overlays (snd (overlayAPI_batchUpdate srv us s)) = overlays s
   \<and> error (snd (overlayAPI_batchUpdate srv us s)) = error s
   \<and> loading (snd (overlayAPI_batchUpdate srv us s)) = loading s
   \<and> sent (snd (overlayAPI_batchUpdate srv us s)) = sent s @ map put_of us
   \<and> length (fst (overlayAPI_batchUpdate srv us s)) = length us"
proof (induction us arbitrary: s)
  case Nil
  then show ?case by simp
next
  case (Cons u us)
  obtain i d where u: "u = (i, d)" by (cases u)
  let ?s1 = "s\<lparr>sent := sent s @ [PUT (''/overlays/'' @ i) d]\<rparr>"
  from Cons.IH [of ?s1] show ?case
    by (simp add: u api_put_def Let_def put_of_def case_prod_beta)
qed

lemma batchUpdate_nth:
  "k < length us \<Longrightarrow>
   fst (overlayAPI_batchUpdate srv us s) ! k
     = respond srv (sent s @ map put_of (take (Suc k) us))"
proof (induction us arbitrary: s k)
  case Nil
  then show ?case by simp
next
  case (Cons u us)
  obtain i d where u: "u = (i, d)" by (cases u)
  let ?s1 = "s\<lparr>sent := sent s @ [PUT (''/overlays/'' @ i) d]\<rparr>"
  show ?case
  proof (cases k)
    case 0
    then show ?thesis
      by (simp add: u api_put_def Let_def put_of_def case_prod_beta)
  next
    case (Suc k')
    with Cons.prems have "k' < length us" by simp
    from Cons.IH [OF this, of ?s1] Suc show ?thesis
      by (simp add: u api_put_def Let_def put_of_def case_prod_beta)
  qed
qed

lemma length_apply_updates [simp]:
  "length (apply_updates now n us ovs) = length ovs"
  by (induction us arbitrary: n ovs) (auto split: option.splits)

lemma findIndex_Some:
  "findIndex P xs = Some j \<Longrightarrow> j < length xs \<and> P (xs ! j)"
  by (induction xs arbitrary: j) (auto split: if_splits)

lemma findIndex_update:
  "j < length xs \<Longrightarrow> P x = P (xs ! j) \<Longrightarrow> findIndex P (xs[j := x]) = findIndex P xs"
proof (induction xs arbitrary: j)
  case Nil
  then show ?case by simp
next
  case (Cons y ys)
  then show ?case by (cases j) simp_all
qed

lemma apply_updates_untouched:
  "j < length ovs \<Longrightarrow>
   \<forall>u \<in> set us. field (ovs ! j) ''_id'' \<noteq> JStr (fst u) \<Longrightarrow>
   apply_updates now n us ovs ! j = ovs ! j"
proof (induction us arbitrary: n ovs)
  case Nil
  then show ?case by simp
next
  case (Cons u us)
  obtain i d where u: "u = (i, d)" by (cases u)
  from Cons.prems have other: "field (ovs ! j) ''_id'' \<noteq> JStr i"
    and rest: "\<forall>u \<in> set us. field (ovs ! j) ''_id'' \<noteq> JStr (fst u)"
    by (simp_all add: u)
  show ?case
  proof (cases "findIndex (\<lambda>ov. field ov ''_id'' = JStr i) ovs")
    case None
    with Cons.IH [OF Cons.prems(1) rest] show ?thesis by (simp add: u)
  next
    case (Some index)
    from findIndex_Some [OF Some] other have ne: "index \<noteq> j" by auto
    let ?ovs = "ovs[index := merged (ovs ! index) d (now n)]"
    have "j < length ?ovs" using Cons.prems(1) by simp
    moreover have "\<forall>u \<in> set us. field (?ovs ! j) ''_id'' \<noteq> JStr (fst u)"
      using rest ne by simp
    ultimately have "apply_updates now (Suc n) us ?ovs ! j = ?ovs ! j"
      by (rule Cons.IH)
    with Some ne show ?thesis by (simp add: u)
  qed
qed

lemma apply_updates_merged:
  "distinct (map fst us) \<Longrightarrow>
   \<forall>u \<in> set us. snd u ''_id'' = None \<Longrightarrow>
   (i, d) \<in> set us \<Longrightarrow>
   findIndex (\<lambda>ov. field ov ''_id'' = JStr i) ovs = Some j \<Longrightarrow>
   \<exists>m. apply_updates now n us ovs ! j = merged (ovs ! j) d (now m)"
proof (induction us arbitrary: n ovs)
  case Nil
  then show ?case by simp
next
  case (Cons u us)
  obtain i' d' where u: "u = (i', d')" by (cases u)
  from findIndex_Some [OF Cons.prems(4)]
  have j: "j < length ovs" and idj: "field (ovs ! j) ''_id'' = JStr i" by simp_all
  show ?case
  proof (cases "i' = i")
    case True
    with Cons.prems(1,3) have d': "d' = d"
      by (force simp: u)
    from Cons.prems(1) True have "\<forall>v \<in> set us. fst v \<noteq> i" by (auto simp: u)
    then have rest: "\<forall>v \<in> set us.
        field (ovs[j := merged (ovs ! j) d (now n)] ! j) ''_id'' \<noteq> JStr (fst v)"
      using j Cons.prems(2) idj by (auto simp add: field_merged u True d')
    have "apply_updates now (Suc n) us (ovs[j := merged (ovs ! j) d (now n)]) ! j
            = ovs[j := merged (ovs ! j) d (now n)] ! j"
      by (rule apply_updates_untouched) (use j rest in simp_all)
    with Cons.prems(4) j show ?thesis
      by (auto simp: u True d')
  next
    case False
    with Cons.prems(3) have mem: "(i, d) \<in> set us" by (simp add: u)
    from Cons.prems(1) have dist: "distinct (map fst us)" by simp
    from Cons.prems(2) have noid: "\<forall>u \<in> set us. snd u ''_id'' = None"
      and d'_noid: "d' ''_id'' = None" by (simp_all add: u)
    show ?thesis
    proof (cases "findIndex (\<lambda>ov. field ov ''_id'' = JStr i') ovs")
      case None
      with Cons.IH [OF dist noid mem Cons.prems(4)] show ?thesis by (simp add: u)
    next
      case (Some index)
      from findIndex_Some [OF Some]
      have idx: "index < length ovs" and ididx: "field (ovs ! index) ''_id'' = JStr i'"
        by simp_all
      with idj False have ne: "index \<noteq> j" by auto
      let ?ovs = "ovs[index := merged (ovs ! index) d' (now n)]"
      have "findIndex (\<lambda>ov. field ov ''_id'' = JStr i) ?ovs
              = findIndex (\<lambda>ov. field ov ''_id'' = JStr i) ovs"
        by (rule findIndex_update [OF idx]) (simp add: field_merged d'_noid)
      with Cons.prems(4) have "findIndex (\<lambda>ov. field ov ''_id'' = JStr i) ?ovs = Some j"
        by simp
      from Cons.IH [OF dist noid mem this, of "Suc n"] ne Some show ?thesis
        by (simp add: u)
    qed
  qed
qed


lemma findIndex_None: "findIndex P xs = None \<Longrightarrow> \<forall>x \<in> set xs. \<not> P x"
  by (induction xs) (auto split: if_splits)

lemma findIndex_first: "findIndex P xs = Some j \<Longrightarrow> \<forall>j' < j. \<not> P (xs ! j')"
proof (induction xs arbitrary: j)
  case Nil
  then show ?case by simp
next
  case (Cons x xs)
  show ?case
  proof (cases "P x")
    case True
    with Cons.prems show ?thesis by simp
  next
    case False
    with Cons.prems obtain k where k: "findIndex P xs = Some k" "j = Suc k"
      by auto
    from Cons.IH [OF k(1)] False show ?thesis
      by (auto simp: k(2) less_Suc_eq_0_disj)
  qed
qed

lemma merged_into_first_step:
  "merged_into_first now (i, d) ovs
     (case findIndex (\<lambda>ov. field ov ''_id'' = JStr i) ovs of
        None \<Rightarrow> ovs
      | Some index \<Rightarrow> ovs[index := merged (ovs ! index) d (now n)])"
proof (cases "findIndex (\<lambda>ov. field ov ''_id'' = JStr i) ovs")
  case None
  from findIndex_None [OF None] show ?thesis
    by (simp add: None merged_into_first_def)
next
  case (Some j)
  let ?after = "ovs[j := merged (ovs ! j) d (now n)]"
  from findIndex_Some [OF Some]
  have j: "j < length ovs" and idj: "field (ovs ! j) ''_id'' = JStr i" by simp_all
  from j idj have present: "\<not> (\<forall>ov \<in> set ovs. field ov ''_id'' \<noteq> JStr i)"
    by (metis nth_mem)
  have "\<forall>key. field (?after ! j) key =
               (if key = ''updated_at'' then JStr (now n)
                else case d key of Some v \<Rightarrow> v | None \<Rightarrow> field (ovs ! j) key)"
    using j by (simp add: field_merged)
  then have stamped: "\<exists>m. \<forall>key. field (?after ! j) key =
               (if key = ''updated_at'' then JStr (now m)
                else case d key of Some v \<Rightarrow> v | None \<Rightarrow> field (ovs ! j) key)"
    by (rule exI)
  have others: "\<forall>j' < length ovs. j' \<noteq> j \<longrightarrow> ?after ! j' = ovs ! j'"
    by simp
  from j idj findIndex_first [OF Some] others stamped
  have body: "\<exists>j0 < length ovs.
          field (ovs ! j0) ''_id'' = JStr i
          \<and> (\<forall>j' < j0. field (ovs ! j') ''_id'' \<noteq> JStr i)
          \<and> (\<forall>j' < length ovs. j' \<noteq> j0 \<longrightarrow> ?after ! j' = ovs ! j')
          \<and> (\<exists>m. \<forall>key.
                 field (?after ! j0) key =
                   (if key = ''updated_at'' then JStr (now m)
                    else case d key of Some v \<Rightarrow> v | None \<Rightarrow> field (ovs ! j0) key))"
    by blast
  have len: "length ?after = length ovs"
    by simp
  have "if \<forall>ov \<in> set ovs. field ov ''_id'' \<noteq> JStr i
        then ?after = ovs
        else \<exists>j0 < length ovs.
          field (ovs ! j0) ''_id'' = JStr i
          \<and> (\<forall>j' < j0. field (ovs ! j') ''_id'' \<noteq> JStr i)
          \<and> (\<forall>j' < length ovs. j' \<noteq> j0 \<longrightarrow> ?after ! j' = ovs ! j')
          \<and> (\<exists>m. \<forall>key.
                 field (?after ! j0) key =
                   (if key = ''updated_at'' then JStr (now m)
                    else case d key of Some v \<Rightarrow> v | None \<Rightarrow> field (ovs ! j0) key))"
    unfolding if_not_P [OF present] by (rule body)
  with len show ?thesis
    unfolding merged_into_first_def Some option.case fst_conv snd_conv
    by (intro conjI)
qed

lemma apply_updates_steps:
  "\<exists>steps. length steps = Suc (length us)
     \<and> steps ! 0 = ovs
     \<and> steps ! length us = apply_updates now n us ovs
     \<and> (\<forall>t < length us. merged_into_first now (us ! t) (steps ! t) (steps ! Suc t))"
proof (induction us arbitrary: n ovs)
  case Nil
  show ?case by (rule exI [of _ "[ovs]"]) simp
next
  case (Cons u us)
  obtain i d where u: "u = (i, d)" by (cases u)
  let ?next = "case findIndex (\<lambda>ov. field ov ''_id'' = JStr i) ovs of
                 None \<Rightarrow> ovs
               | Some index \<Rightarrow> ovs[index := merged (ovs ! index) d (now n)]"
  let ?n = "case findIndex (\<lambda>ov. field ov ''_id'' = JStr i) ovs of None \<Rightarrow> n | Some index \<Rightarrow> Suc n"
  have unfold: "apply_updates now n (u # us) ovs = apply_updates now ?n us ?next"
    by (simp add: u split: option.splits)
  from Cons.IH [of ?next ?n] obtain steps where
    len: "length steps = Suc (length us)"
    and first: "steps ! 0 = ?next"
    and final: "steps ! length us = apply_updates now ?n us ?next"
    and each: "\<forall>t < length us. merged_into_first now (us ! t) (steps ! t) (steps ! Suc t)"
    by blast
  have head: "merged_into_first now u ovs (steps ! 0)"
    unfolding first u by (rule merged_into_first_step)
  have "\<forall>t < length (u # us).
          merged_into_first now ((u # us) ! t) ((ovs # steps) ! t) ((ovs # steps) ! Suc t)"
    using head each by (auto simp: less_Suc_eq_0_disj)
  with len final unfold show ?case
    by (intro exI [of _ "ovs # steps"]) simp
qed

lemma successfulUpdates_accepted:
  "length rs = length us \<Longrightarrow> successfulUpdates us rs = accepted us rs"
  unfolding successfulUpdates_def accepted_def
proof (induction us arbitrary: rs rule: rev_induct)
  case Nil
  then show ?case by simp
next
  case (snoc u us)
  then obtain rs' r where rs: "rs = rs' @ [r]" and len: "length rs' = length us"
    by (cases rs rule: rev_cases) auto
  have a: "filter (\<lambda>index. fulfilled ((rs' @ [r]) ! index)) [0..<length us]
            = filter (\<lambda>index. fulfilled (rs' ! index)) [0..<length us]"
    by (rule filter_cong) (auto simp: nth_append len)
  have b: "map (\<lambda>index. (us @ [u]) ! index) (filter (\<lambda>index. fulfilled (rs' ! index)) [0..<length us])
            = map (\<lambda>index. us ! index) (filter (\<lambda>index. fulfilled (rs' ! index)) [0..<length us])"
    by (rule map_cong) (auto simp: nth_append)
  have r_at: "(rs' @ [r]) ! length us = r"
    by (simp add: nth_append len)
  show ?case
    using snoc.IH [OF len] by (simp add: rs len a b r_at)
qed

lemma set_successful:
  "set (successfulUpdates us rs) = {us ! k | k. k < length us \<and> fulfilled (rs ! k)}"
  by (auto simp: successfulUpdates_def)

lemma distinct_successful:
  assumes "distinct (map fst us)"
  shows "distinct (map fst (successfulUpdates us rs))"
proof -
  have "inj_on (\<lambda>k. fst (us ! k)) {k. k < length us}"
  proof (rule inj_onI)
    fix x y
    assume "x \<in> {k. k < length us}" "y \<in> {k. k < length us}" "fst (us ! x) = fst (us ! y)"
    then have "map fst us ! x = map fst us ! y" "x < length (map fst us)" "y < length (map fst us)"
      by simp_all
    with assms nth_eq_iff_index_eq [of "map fst us" x y] show "x = y"
      by blast
  qed
  then have "inj_on (\<lambda>k. fst (us ! k)) (set (filter (\<lambda>k. fulfilled (rs ! k)) [0..<length us]))"
    by (rule inj_on_subset) auto
  then show ?thesis
    by (simp add: successfulUpdates_def distinct_map comp_def)
qed

lemma batchUpdateOverlays_unfold:
  "batchUpdateOverlays srv now us s =
     (Fulfilled (fst (overlayAPI_batchUpdate srv us s)),
      (snd (overlayAPI_batchUpdate srv us s))
        \<lparr>overlays := apply_updates now 0
                       (successfulUpdates us (fst (overlayAPI_batchUpdate srv us s)))
                       (overlays s)\<rparr>)"
  by (simp add: batchUpdateOverlays_def case_prod_beta batchUpdate_frame)

text \<open>
  C4. For every list of updates, \<^verbatim>\<open>batchUpdateOverlays\<close> fulfils with one response per
  element, the \<open>k\<close>-th being the HTTP client's settled response to the \<open>k\<close>-th \<^verbatim>\<open>PUT\<close>; it
  sends exactly those \<^verbatim>\<open>PUT\<close>s and no \<^verbatim>\<open>GET\<close>, and leaves the error state alone. The new
  collection is reached from the old one by merging the updates whose response is
  fulfilled, and only those, one after the other in the order of the list, each into the
  first record that has its id at that point. So the collection keeps its length, and a
  record that no fulfilled update names is the old one, whatever was rejected for it.
  When the list names each id once and no patch rewrites \<^verbatim>\<open>_id\<close>, the first record with
  the id of a fulfilled update reads, property by property, as the old record
  overwritten by that update's patch, with \<^verbatim>\<open>updated_at\<close> set to a reading of the clock.
\<close>

theorem batchUpdateOverlays_partial:
  "\<exists>responses steps.
           fst (batchUpdateOverlays srv now updates s) = Fulfilled responses
         \<and> length responses = length updates
         \<and> (\<forall>k < length updates.
               responses ! k = respond srv (sent s @ map put_of (take (Suc k) updates)))
         \<and> sent (snd (batchUpdateOverlays srv now updates s)) = sent s @ map put_of updates
         \<and> error (snd (batchUpdateOverlays srv now updates s)) = error s
         \<and> length steps = Suc (length (accepted updates responses))
         \<and> steps ! 0 = overlays s
         \<and> steps ! length (accepted updates responses)
               = overlays (snd (batchUpdateOverlays srv now updates s))
         \<and> (\<forall>t < length (accepted updates responses).
               merged_into_first now (accepted updates responses ! t) (steps ! t) (steps ! Suc t))
         \<and> length (overlays (snd (batchUpdateOverlays srv now updates s))) = length (overlays s)
         \<and> (\<forall>j < length (overlays s).
               (\<forall>k < length updates. fulfilled (responses ! k) \<longrightarrow>
                   field (overlays s ! j) ''_id'' \<noteq> JStr (fst (updates ! k))) \<longrightarrow>
               overlays (snd (batchUpdateOverlays srv now updates s)) ! j = overlays s ! j)
         \<and> (distinct (map fst updates) \<and> (\<forall>u \<in> set updates. snd u ''_id'' = None) \<longrightarrow>
             (\<forall>k < length updates. \<forall>j.
               fulfilled (responses ! k)
               \<and> findIndex (\<lambda>ov. field ov ''_id'' = JStr (fst (updates ! k))) (overlays s) = Some j
               \<longrightarrow>
               (\<exists>n. \<forall>key.
                  field (overlays (snd (batchUpdateOverlays srv now updates s)) ! j) key =
                    (if key = ''updated_at'' then JStr (now n)
                     else case snd (updates ! k) key of
                            Some v \<Rightarrow> v
                          | None \<Rightarrow> field (overlays s ! j) key))))"
proof -
  let ?rs = "fst (overlayAPI_batchUpdate srv updates s)"
  let ?succ = "successfulUpdates updates ?rs"
  let ?s' = "snd (batchUpdateOverlays srv now updates s)"
  note unf = batchUpdateOverlays_unfold [of srv now updates s]
  note frame = batchUpdate_frame [of srv updates s]
  have new: "overlays ?s' = apply_updates now 0 ?succ (overlays s)"
    by (simp add: unf)
  have res: "fst (batchUpdateOverlays srv now updates s) = Fulfilled ?rs"
    by (simp add: unf)
  have len: "length ?rs = length updates"
    by (simp add: frame)
  have acc: "?succ = accepted updates ?rs"
    by (rule successfulUpdates_accepted [OF len])
  have each: "\<forall>k < length updates.
               ?rs ! k = respond srv (sent s @ map put_of (take (Suc k) updates))"
    by (simp add: batchUpdate_nth)
  have trace: "sent ?s' = sent s @ map put_of updates"
    by (simp add: unf frame)
  have err: "error ?s' = error s"
    by (simp add: unf frame)
  have same_len: "length (overlays ?s') = length (overlays s)"
    by (simp add: new)
  from apply_updates_steps [of ?succ "overlays s" now 0]
  obtain steps where
    steps: "length steps = Suc (length (accepted updates ?rs))"
      "steps ! 0 = overlays s"
      "steps ! length (accepted updates ?rs) = overlays ?s'"
      "\<forall>t < length (accepted updates ?rs).
         merged_into_first now (accepted updates ?rs ! t) (steps ! t) (steps ! Suc t)"
    unfolding acc new [unfolded acc] by blast
  have untouched: "overlays ?s' ! j = overlays s ! j"
    if j: "j < length (overlays s)"
      and other: "\<forall>k < length updates. fulfilled (?rs ! k) \<longrightarrow>
                   field (overlays s ! j) ''_id'' \<noteq> JStr (fst (updates ! k))"
    for j
  proof -
    from other have "\<forall>u \<in> set ?succ. field (overlays s ! j) ''_id'' \<noteq> JStr (fst u)"
      by (auto simp: set_successful) (metis fst_conv)
    with j show ?thesis
      unfolding new by (rule apply_updates_untouched)
  qed
  have hit: "\<exists>n. \<forall>key.
                  field (overlays ?s' ! j) key =
                    (if key = ''updated_at'' then JStr (now n)
                     else case snd (updates ! k) key of
                            Some v \<Rightarrow> v
                          | None \<Rightarrow> field (overlays s ! j) key)"
    if ids: "distinct (map fst updates)"
      and noid: "\<forall>u \<in> set updates. snd u ''_id'' = None"
      and k: "k < length updates" and ok: "fulfilled (?rs ! k)"
      and first: "findIndex (\<lambda>ov. field ov ''_id'' = JStr (fst (updates ! k))) (overlays s) = Some j"
    for k j
  proof -
    from k ok have mem: "(fst (updates ! k), snd (updates ! k)) \<in> set ?succ"
      by (auto simp: set_successful)
    have "\<forall>u \<in> set ?succ. snd u ''_id'' = None"
      using noid by (auto simp: set_successful) (metis nth_mem snd_conv)
    from apply_updates_merged [OF distinct_successful [OF ids] this mem first, of now 0]
    obtain n where "overlays ?s' ! j = merged (overlays s ! j) (snd (updates ! k)) (now n)"
      unfolding new by blast
    then have "\<forall>key. field (overlays ?s' ! j) key =
                    (if key = ''updated_at'' then JStr (now n)
                     else case snd (updates ! k) key of
                            Some v \<Rightarrow> v
                          | None \<Rightarrow> field (overlays s ! j) key)"
      by (simp add: field_merged)
    then show ?thesis ..
  qed
  from res len each trace err steps same_len untouched hit show ?thesis
    by blast
qed

lemma merged_into_first_at:
  assumes step: "merged_into_first now u before after"
    and j: "j < length before"
    and idj: "field (before ! j) ''_id'' = JStr (fst u)"
    and first: "\<forall>j' < j. field (before ! j') ''_id'' \<noteq> JStr (fst u)"
  shows "length after = length before
         \<and> (\<forall>j' < length before. j' \<noteq> j \<longrightarrow> after ! j' = before ! j')
         \<and> (\<exists>n. \<forall>key. field (after ! j) key =
                  (if key = ''updated_at'' then JStr (now n)
                   else case snd u key of Some v \<Rightarrow> v | None \<Rightarrow> field (before ! j) key))"
proof -
  from j idj have "\<not> (\<forall>ov \<in> set before. field ov ''_id'' \<noteq> JStr (fst u))"
    by (metis nth_mem)
  with step obtain j0 where j0: "j0 < length before"
    "field (before ! j0) ''_id'' = JStr (fst u)"
    "\<forall>j' < j0. field (before ! j') ''_id'' \<noteq> JStr (fst u)"
    "\<forall>j' < length before. j' \<noteq> j0 \<longrightarrow> after ! j' = before ! j'"
    "\<exists>n. \<forall>key. field (after ! j0) key =
            (if key = ''updated_at'' then JStr (now n)
             else case snd u key of Some v \<Rightarrow> v | None \<Rightarrow> field (before ! j0) key)"
    and len: "length after = length before"
    unfolding merged_into_first_def by auto
  have "j0 = j"
  proof (rule ccontr)
    assume "j0 \<noteq> j"
    then consider "j0 < j" | "j < j0" by linarith
    then show False
    proof cases
      case 1
      with first j0(2) show False by blast
    next
      case 2
      with j0(3) idj show False by blast
    qed
  qed
  with j0 len show ?thesis by blast
qed

theorem batchUpdateOverlays_partial_witness:
  "distinct (map fst batch_updates)
   \<and> snd (batch_updates ! 0) ''_id'' = None \<and> snd (batch_updates ! 1) ''_id'' = None
   \<and> snd (batch_updates ! 2) ''_id'' = None
   \<and> fst (batchUpdateOverlays rejecting_b clock batch_updates local_store)
        = Fulfilled [Fulfilled ok_response, Rejected outage, Fulfilled ok_response]
   \<and> sent (snd (batchUpdateOverlays rejecting_b clock batch_updates local_store))
        = [PUT ''/overlays/a'' move_patch, PUT ''/overlays/b'' [''visible'' \<mapsto> JBool False],
           PUT ''/overlays/c'' [''content'' \<mapsto> JStr ''Final'']]
   \<and> field (overlays (snd (batchUpdateOverlays rejecting_b clock batch_updates local_store)) ! 0)
        ''position'' = JObj [''x'' \<mapsto> JNum (Fin 50), ''y'' \<mapsto> JNum (Fin 60)]
   \<and> overlays (snd (batchUpdateOverlays rejecting_b clock batch_updates local_store)) ! 1
        = overlay_B
   \<and> field (overlays (snd (batchUpdateOverlays rejecting_b clock batch_updates local_store)) ! 2)
        ''content'' = JStr ''Final''
   \<and> field (overlays (snd (batchUpdateOverlays accepting clock twice_a local_store)) ! 0)
        ''content'' = JStr ''two''"
proof -
  let ?run = "batchUpdateOverlays rejecting_b clock batch_updates local_store"
  have ids: "distinct (map fst batch_updates)"
    by (simp add: batch_updates_def)
  have noid: "snd (batch_updates ! 0) ''_id'' = None" "snd (batch_updates ! 1) ''_id'' = None"
    "snd (batch_updates ! 2) ''_id'' = None"
    by (simp_all add: batch_updates_def move_patch_def)
  then have noid_all: "\<forall>u \<in> set batch_updates. snd u ''_id'' = None"
    by (simp add: batch_updates_def)
  from batchUpdateOverlays_partial [of rejecting_b clock batch_updates local_store]
  obtain responses where
    res: "fst ?run = Fulfilled responses"
    and len: "length responses = length batch_updates"
    and each: "\<forall>k < length batch_updates.
                 responses ! k
                   = respond rejecting_b
                       (sent local_store @ map put_of (take (Suc k) batch_updates))"
    and trace: "sent (snd ?run) = sent local_store @ map put_of batch_updates"
    and untouched: "\<forall>j < length (overlays local_store).
               (\<forall>k < length batch_updates. fulfilled (responses ! k) \<longrightarrow>
                   field (overlays local_store ! j) ''_id'' \<noteq> JStr (fst (batch_updates ! k))) \<longrightarrow>
               overlays (snd ?run) ! j = overlays local_store ! j"
    and merges: "distinct (map fst batch_updates)
                   \<and> (\<forall>u \<in> set batch_updates. snd u ''_id'' = None) \<longrightarrow>
             (\<forall>k < length batch_updates. \<forall>j.
               fulfilled (responses ! k)
               \<and> findIndex (\<lambda>ov. field ov ''_id'' = JStr (fst (batch_updates ! k)))
                    (overlays local_store) = Some j
               \<longrightarrow>
               (\<exists>n. \<forall>key.
                  field (overlays (snd ?run) ! j) key =
                    (if key = ''updated_at'' then JStr (clock n)
                     else case snd (batch_updates ! k) key of
                            Some v \<Rightarrow> v
                          | None \<Rightarrow> field (overlays local_store ! j) key)))"
    by blast
  from merges ids noid_all
  have hit: "\<forall>k < length batch_updates. \<forall>j.
               fulfilled (responses ! k)
               \<and> findIndex (\<lambda>ov. field ov ''_id'' = JStr (fst (batch_updates ! k)))
                    (overlays local_store) = Some j
               \<longrightarrow>
               (\<exists>n. \<forall>key.
                  field (overlays (snd ?run) ! j) key =
                    (if key = ''updated_at'' then JStr (clock n)
                     else case snd (batch_updates ! k) key of
                            Some v \<Rightarrow> v
                          | None \<Rightarrow> field (overlays local_store ! j) key))"
    by blast
  from each have r: "responses ! 0 = Fulfilled ok_response" "responses ! 1 = Rejected outage"
    "responses ! 2 = Fulfilled ok_response"
    by (simp_all add: batch_updates_def rejecting_b_def put_of_def local_store_def respond_def
          ok_response_def)
  from len have "length responses = 3"
    by (simp add: batch_updates_def)
  with r have all: "responses = [Fulfilled ok_response, Rejected outage, Fulfilled ok_response]"
    by (simp add: list_eq_iff_nth_eq All_less_Suc eval_nat_numeral)
  from trace have tr: "sent (snd ?run)
        = [PUT ''/overlays/a'' move_patch, PUT ''/overlays/b'' [''visible'' \<mapsto> JBool False],
           PUT ''/overlays/c'' [''content'' \<mapsto> JStr ''Final'']]"
    by (simp add: batch_updates_def put_of_def local_store_def)
  have first_a: "findIndex (\<lambda>ov. field ov ''_id'' = JStr (fst (batch_updates ! 0)))
                   (overlays local_store) = Some 0"
    by (simp add: batch_updates_def local_store_def overlay_A_def field_def)
  have first_c: "findIndex (\<lambda>ov. field ov ''_id'' = JStr (fst (batch_updates ! 2)))
                   (overlays local_store) = Some 2"
    by (simp add: batch_updates_def local_store_def overlay_A_def overlay_B_def overlay_C_def
          field_def)
  have k0: "0 < length batch_updates" and k2: "2 < length batch_updates"
    by (simp_all add: batch_updates_def)
  from hit k0 first_a r(1)
  obtain n where "\<forall>key. field (overlays (snd ?run) ! 0) key =
                    (if key = ''updated_at'' then JStr (clock n)
                     else case snd (batch_updates ! 0) key of
                            Some v \<Rightarrow> v
                          | None \<Rightarrow> field (overlays local_store ! 0) key)"
    by (metis fulfilled.simps(1))
  then have a: "field (overlays (snd ?run) ! 0) ''position''
                  = JObj [''x'' \<mapsto> JNum (Fin 50), ''y'' \<mapsto> JNum (Fin 60)]"
    by (simp add: batch_updates_def move_patch_def)
  from hit k2 first_c r(3)
  obtain m where "\<forall>key. field (overlays (snd ?run) ! 2) key =
                    (if key = ''updated_at'' then JStr (clock m)
                     else case snd (batch_updates ! 2) key of
                            Some v \<Rightarrow> v
                          | None \<Rightarrow> field (overlays local_store ! 2) key)"
    by (metis fulfilled.simps(1))
  then have c: "field (overlays (snd ?run) ! 2) ''content'' = JStr ''Final''"
    by (simp add: batch_updates_def)
  have "\<forall>k < length batch_updates. fulfilled (responses ! k) \<longrightarrow>
          field (overlays local_store ! 1) ''_id'' \<noteq> JStr (fst (batch_updates ! k))"
    by (simp add: all batch_updates_def local_store_def overlay_B_def field_def All_less_Suc
          eval_nat_numeral)
  moreover have "1 < length (overlays local_store)"
    by (simp add: local_store_def)
  ultimately have "overlays (snd ?run) ! 1 = overlays local_store ! 1"
    using untouched by blast
  then have b: "overlays (snd ?run) ! 1 = overlay_B"
    by (simp add: local_store_def)
  let ?dup = "batchUpdateOverlays accepting clock twice_a local_store"
  from batchUpdateOverlays_partial [of accepting clock twice_a local_store]
  obtain replies steps where
    dlen: "length replies = length twice_a"
    and deach: "\<forall>k < length twice_a.
                 replies ! k
                   = respond accepting (sent local_store @ map put_of (take (Suc k) twice_a))"
    and s0: "steps ! 0 = overlays local_store"
    and s2: "steps ! length (accepted twice_a replies) = overlays (snd ?dup)"
    and chain: "\<forall>t < length (accepted twice_a replies).
               merged_into_first clock (accepted twice_a replies ! t) (steps ! t) (steps ! Suc t)"
    by blast
  from deach have "replies ! 0 = Fulfilled ok_response" "replies ! 1 = Fulfilled ok_response"
    by (simp_all add: twice_a_def accepting_def respond_def ok_response_def)
  moreover from dlen have "length replies = 2"
    by (simp add: twice_a_def)
  ultimately have "replies = [Fulfilled ok_response, Fulfilled ok_response]"
    by (simp add: list_eq_iff_nth_eq All_less_Suc eval_nat_numeral)
  then have acc: "accepted twice_a replies = twice_a"
    by (simp add: accepted_def twice_a_def)
  from chain have step1: "merged_into_first clock (''a'', [''content'' \<mapsto> JStr ''one''])
                            (overlays local_store) (steps ! 1)"
    and step2: "merged_into_first clock (''a'', [''content'' \<mapsto> JStr ''two''])
                            (steps ! 1) (steps ! 2)"
    unfolding acc by (simp_all add: twice_a_def s0 [symmetric] All_less_Suc eval_nat_numeral)
  have id0: "field (overlays local_store ! 0) ''_id'' = JStr ''a''"
    by (simp add: local_store_def overlay_A_def field_def)
  from merged_into_first_at [OF step1, of 0] id0
  obtain n1 where l1: "length (steps ! 1) = length (overlays local_store)"
    and f1: "\<forall>key. field (steps ! 1 ! 0) key =
               (if key = ''updated_at'' then JStr (clock n1)
                else case [''content'' \<mapsto> JStr ''one''] key of
                       Some v \<Rightarrow> v
                     | None \<Rightarrow> field (overlays local_store ! 0) key)"
    by (auto simp: local_store_def)
  from f1 id0 have id1: "field (steps ! 1 ! 0) ''_id'' = JStr ''a''"
    by simp
  from l1 have "0 < length (steps ! 1)"
    by (simp add: local_store_def)
  from merged_into_first_at [OF step2 this] id1
  obtain n2 where "\<forall>key. field (steps ! 2 ! 0) key =
               (if key = ''updated_at'' then JStr (clock n2)
                else case [''content'' \<mapsto> JStr ''two''] key of
                       Some v \<Rightarrow> v
                     | None \<Rightarrow> field (steps ! 1 ! 0) key)"
    by auto
  then have two: "field (steps ! 2 ! 0) ''content'' = JStr ''two''"
    by simp
  have "length twice_a = 2"
    by (simp add: twice_a_def)
  with s2 have "steps ! 2 = overlays (snd ?dup)"
    unfolding acc by simp
  with two have d: "field (overlays (snd ?dup) ! 0) ''content'' = JStr ''two''"
    by simp
  from ids noid res all tr a b c d show ?thesis
    by simp
qed

section \<open>Rounding to binary64\<close>

lemma round_half_even_of_int [simp]: "round_half_even (of_int z) = z"
  by (simp add: round_half_even_def)

lemma round_half_even_nonpos: "m \<le> 0 \<Longrightarrow> round_half_even m \<le> 0"
  unfolding round_half_even_def Let_def
  by (auto simp: floor_le_zero)

lemma round_half_even_nonneg: "0 \<le> m \<Longrightarrow> 0 \<le> round_half_even m"
  unfolding round_half_even_def Let_def
  by auto

lemma exponent2_of_int:
  assumes "k \<noteq> 0" and "\<bar>k\<bar> < 2 ^ 53"
  shows "0 \<le> exponent2 (of_int k)" and "exponent2 (of_int k) \<le> 52"
proof -
  have pos: "0 < \<bar>k\<bar>" using assms(1) by simp
  have "1 \<le> \<bar>real_of_int k\<bar>" "\<lfloor>\<bar>real_of_int k\<bar>\<rfloor> = \<bar>k\<bar>"
    using pos by (simp_all flip: of_int_abs)
  then have e: "exponent2 (of_int k) = bitlen \<bar>k\<bar> - 1"
    unfolding exponent2_def by (simp only: if_True)
  from bitlen_bounds [OF pos] have lo: "2 ^ nat (bitlen \<bar>k\<bar> - 1) \<le> \<bar>k\<bar>" by simp
  have "1 \<le> bitlen \<bar>k\<bar>"
    using pos by (simp add: bitlen_alt_def)
  then show "0 \<le> exponent2 (of_int k)" by (simp add: e)
  from lo assms(2) have "(2::int) ^ nat (bitlen \<bar>k\<bar> - 1) < 2 ^ 53" by linarith
  then have "nat (bitlen \<bar>k\<bar> - 1) < 53"
    by (rule power_less_imp_less_exp [rotated]) simp
  then show "exponent2 (of_int k) \<le> 52" by (simp add: e)
qed

text \<open>\<open>exponent2\<close> is the binary exponent: \<open>\<bar>x\<bar>\<close> lies in the binade it names.\<close>

lemma exponent2_bounds:
  assumes "x \<noteq> 0"
  shows "2 powi exponent2 x \<le> \<bar>x\<bar>" and "\<bar>x\<bar> < 2 powi (exponent2 x + 1)"
proof -
  have both: "2 powi exponent2 x \<le> \<bar>x\<bar> \<and> \<bar>x\<bar> < 2 powi (exponent2 x + 1)"
  proof (cases "1 \<le> \<bar>x\<bar>")
    case True
    define n where "n = \<lfloor>\<bar>x\<bar>\<rfloor>"
    define b where "b = nat (bitlen n - 1)"
    from True have n: "0 < n" by (simp add: n_def)
    from n have bl: "1 \<le> bitlen n" by (simp add: bitlen_alt_def)
    have e: "exponent2 x = int b"
      using True bl by (simp add: exponent2_def n_def b_def)
    from bitlen_bounds [OF n] bl have lo: "2 ^ b \<le> n" and hi: "n < 2 ^ Suc b"
      by (simp_all add: b_def nat_diff_distrib flip: Suc_nat_eq_nat_zadd1)
    have "real_of_int n \<le> \<bar>x\<bar>" "\<bar>x\<bar> < real_of_int n + 1"
      by (simp_all add: n_def)
    moreover from lo have "real_of_int (2 ^ b) \<le> real_of_int n"
      by (simp only: of_int_le_iff)
    then have "(2::real) ^ b \<le> real_of_int n"
      by simp
    moreover from hi have "n + 1 \<le> 2 ^ Suc b" by simp
    then have "real_of_int (n + 1) \<le> real_of_int (2 ^ Suc b)"
      by (simp only: of_int_le_iff)
    then have "real_of_int n + 1 \<le> 2 ^ Suc b"
      by simp
    moreover have "(2::real) powi exponent2 x = 2 ^ b"
      "(2::real) powi (exponent2 x + 1) = 2 ^ Suc b"
      by (simp_all add: e power_int_add)
    ultimately show ?thesis
      by linarith
  next
    case False
    define y where "y = 1 / \<bar>x\<bar>"
    define n where "n = \<lceil>y\<rceil> - 1"
    define b where "b = nat (bitlen n)"
    from False assms have x: "0 < \<bar>x\<bar>" "\<bar>x\<bar> < 1" by simp_all
    then have y: "1 < y" by (simp add: y_def)
    then have n: "0 < n" by (simp add: n_def less_ceiling_iff)
    from n have bl: "1 \<le> bitlen n" by (simp add: bitlen_alt_def)
    have e: "exponent2 x = - int b"
      using False bl by (simp add: exponent2_def n_def b_def y_def)
    from bitlen_bounds [OF n] bl have lo: "2 ^ (b - 1) \<le> n" and hi: "n < 2 ^ b"
      by (simp_all add: b_def nat_diff_distrib)
    have "real_of_int n < y" "y \<le> real_of_int n + 1"
      by (simp_all add: n_def) linarith+
    moreover from lo have "real_of_int (2 ^ (b - 1)) \<le> real_of_int n"
      by (simp only: of_int_le_iff)
    then have "(2::real) ^ (b - 1) \<le> real_of_int n"
      by simp
    moreover from hi have "n + 1 \<le> 2 ^ b" by simp
    then have "real_of_int (n + 1) \<le> real_of_int (2 ^ b)"
      by (simp only: of_int_le_iff)
    then have "real_of_int n + 1 \<le> 2 ^ b"
      by simp
    ultimately have yb: "2 ^ (b - 1) < y" "y \<le> 2 ^ b"
      by linarith+
    from bl have b1: "1 \<le> b" by (simp add: b_def)
    have ax: "\<bar>x\<bar> = 1 / y" using x by (simp add: y_def)
    have up: "(2::real) powi (- int b) = 1 / 2 ^ b"
      by (simp add: power_int_minus inverse_eq_divide)
    have up1: "(2::real) powi (- int b + 1) = 1 / 2 ^ (b - 1)"
    proof -
      have "- int b + 1 = - int (b - 1)" using b1 by simp
      then show ?thesis
        by (simp only: power_int_minus power_int_of_nat inverse_eq_divide)
    qed
    have "1 / 2 ^ b \<le> 1 / y"
      using yb(2) y by (simp add: frac_le)
    moreover have "1 / y < 1 / 2 ^ (b - 1)"
      using yb(1) by (simp add: frac_less2)
    moreover have "(2::real) powi exponent2 x = 1 / 2 ^ b"
      "(2::real) powi (exponent2 x + 1) = 1 / 2 ^ (b - 1)"
      using up up1 by (simp_all add: e)
    ultimately show ?thesis
      using ax by linarith
  qed
  from both show "2 powi exponent2 x \<le> \<bar>x\<bar>" and "\<bar>x\<bar> < 2 powi (exponent2 x + 1)"
    by simp_all
qed

text \<open>An integer of magnitude below \<open>2 ^ 53\<close> is a binary64 number: rounding keeps it.\<close>

lemma binary64_of_int:
  assumes "\<bar>k\<bar> < 2 ^ 53"
  shows "binary64 (of_int k) = Fin (of_int k)"
proof (cases "k = 0")
  case True
  then show ?thesis by (simp add: binary64_def)
next
  case False
  let ?e = "exponent2 (of_int k)"
  from exponent2_of_int [OF False assms] have e: "0 \<le> ?e" "?e \<le> 52" by simp_all
  define n where "n = nat (52 - ?e)"
  have ulp: "(2::real) powi (max ?e (- 1022) - 52) = 1 / 2 ^ n"
    using e by (simp add: n_def power_int_def max_def field_simps)
  have scaled: "real_of_int k / (1 / 2 ^ n) = of_int (k * 2 ^ n)"
    by simp
  have y: "of_int (round_half_even (real_of_int k / (1 / 2 ^ n))) * (1 / 2 ^ n) = real_of_int k"
    unfolding scaled round_half_even_of_int by simp
  have "\<bar>real_of_int k\<bar> < 2 ^ 53"
    using assms by (metis of_int_abs of_int_less_numeral_power_cancel_iff)
  moreover have "(2::real) ^ 53 \<le> 2 ^ 1024" by simp
  ultimately have small: "\<not> 2 ^ 1024 \<le> real_of_int k" "\<not> real_of_int k \<le> - (2 ^ 1024)"
    by linarith+
  have nz: "real_of_int k \<noteq> 0"
    using False by simp
  show ?thesis
    unfolding binary64_def Let_def ulp y
    by (simp only: nz small if_False)
qed

text \<open>Rounding keeps the sign: it never moves a number across zero.\<close>

lemma binary64_nonpos:
  assumes "x \<le> 0" and "binary64 x = Fin y"
  shows "y \<le> 0"
proof (cases "x = 0")
  case True
  with assms(2) show ?thesis by (simp add: binary64_def)
next
  case False
  let ?ulp = "(2::real) powi (max (exponent2 x) (- 1022) - 52)"
  have ulp: "0 < ?ulp" by (simp add: power_int_def)
  with assms(1) have "x / ?ulp \<le> 0" by (simp add: divide_nonpos_pos)
  then have "round_half_even (x / ?ulp) \<le> 0" by (rule round_half_even_nonpos)
  then have "of_int (round_half_even (x / ?ulp)) * ?ulp \<le> 0"
    using ulp by (simp add: mult_nonpos_nonneg)
  with assms(2) False show ?thesis
    by (simp add: binary64_def Let_def split: if_splits)
qed

lemma binary64_nonneg:
  assumes "0 \<le> x" and "binary64 x = Fin y"
  shows "0 \<le> y"
proof (cases "x = 0")
  case True
  with assms(2) show ?thesis by (simp add: binary64_def)
next
  case False
  let ?ulp = "(2::real) powi (max (exponent2 x) (- 1022) - 52)"
  have ulp: "0 < ?ulp" by (simp add: power_int_def)
  with assms(1) have "0 \<le> x / ?ulp" by simp
  then have "0 \<le> round_half_even (x / ?ulp)" by (rule round_half_even_nonneg)
  then have "0 \<le> of_int (round_half_even (x / ?ulp)) * ?ulp"
    using ulp by simp
  with assms(2) False show ?thesis
    by (simp add: binary64_def Let_def split: if_splits)
qed

text \<open>
  Two values that are not integers: one half is a binary64 number, and
  \<open>1/2 - 2 ^ -55\<close> is not; it lies midway between two of them and rounds to the even one,
  which is one half.
\<close>

lemma ulp53: "(2::real) powi (- 53) = 1 / 9007199254740992"
  by (simp add: power_int_minus inverse_eq_divide)

lemma ulp54: "(2::real) powi (- 54) = 1 / 18014398509481984"
  by (simp add: power_int_minus inverse_eq_divide)

lemma exponent2_half: "exponent2 (1 / 2) = - 1"
proof -
  have "bitlen 1 = 1"
    by (simp add: compute_bitlen)
  then show ?thesis
    by (simp add: exponent2_def)
qed

lemma binary64_half: "binary64 (1 / 2) = Fin (1 / 2)"
proof -
  have "max (exponent2 (1 / 2)) (- 1022) - 52 = - 53"
    by (simp add: exponent2_half)
  then have ulp: "(2::real) powi (max (exponent2 (1 / 2)) (- 1022) - 52) = 1 / 9007199254740992"
    by (simp only: ulp53)
  have "(1 / 2 / (1 / 9007199254740992) :: real) = of_int 4503599627370496"
    by simp
  then have r: "round_half_even (1 / 2 / (1 / 9007199254740992)) = 4503599627370496"
    by (simp only: round_half_even_of_int)
  show ?thesis
    unfolding binary64_def Let_def ulp r
    by simp
qed

lemma tie_value: "(1 / 2 - 1 / 2 ^ 55 :: real) = 18014398509481983 / 36028797018963968"
  by simp

lemma exponent2_tie: "exponent2 (18014398509481983 / 36028797018963968) = - 2"
proof -
  have "\<lceil>1 / \<bar>18014398509481983 / 36028797018963968 :: real\<bar>\<rceil> = 3"
    by (rule ceiling_unique) simp_all
  moreover have "bitlen 2 = 2"
    by (simp add: compute_bitlen)
  ultimately show ?thesis
    by (simp add: exponent2_def)
qed

lemma round_half_even_tie:
  "round_half_even (18014398509481983 / 36028797018963968 / (1 / 18014398509481984))
     = 9007199254740992"
proof -
  have q: "(18014398509481983 / 36028797018963968 / (1 / 18014398509481984) :: real)
             = 18014398509481983 / 2"
    by simp
  have f: "\<lfloor>18014398509481983 / 2 :: real\<rfloor> = 9007199254740991"
    by simp
  show ?thesis
    unfolding q round_half_even_def Let_def f by simp
qed

lemma binary64_tie: "binary64 (1 / 2 - 1 / 2 ^ 55) = Fin (1 / 2)"
proof -
  have "max (exponent2 (18014398509481983 / 36028797018963968)) (- 1022) - 52 = - 54"
    by (simp add: exponent2_tie)
  then have ulp: "(2::real) powi (max (exponent2 (18014398509481983 / 36028797018963968))
                     (- 1022) - 52) = 1 / 18014398509481984"
    by (simp only: ulp54)
  show ?thesis
    unfolding tie_value binary64_def Let_def ulp round_half_even_tie
    by simp
qed

section \<open>Drag positions\<close>

lemma clamp_code:
  "Math_max (Fin 0) (Math_min (Fin v) (Fin hi)) = Fin (clamp v 0 hi)"
  by (simp add: clamp_def)

text \<open>
  C5. During a drag (an overlay id is recorded, the drag flag is set, the container is
  mounted, the dragged record is found and has a numeric size, and the update callback is
  passed), let \<open>newX\<close> be the number the handler computes as
  \<^verbatim>\<open>clientX - left - offsetX\<close> and \<open>maxX\<close> the number it computes as the container's
  width minus the overlay's width, both in binary64 arithmetic and finite, and likewise
  \<open>newY\<close> and \<open>maxY\<close>. Then \<^verbatim>\<open>handleMouseMove\<close> calls the update path with the patch
  \<^verbatim>\<open>{position: {x, y}}\<close> where \<open>x\<close> is the rounded clamp of \<open>newX\<close> to the range from 0
  to \<open>maxX\<close>, and \<open>y\<close> likewise. The clamped value is never negative, is at most the
  upper end when the overlay fits, and is 0 when the overlay is larger than the container.
\<close>

theorem handleMouseMove_clamps:
  assumes "draggedOverlay st = Some dragged" and "dragged \<noteq> []" and "isDragging st"
    and "find (\<lambda>ov. field ov ''_id'' = JStr dragged) ovs = Some ov"
    and "field ov ''size'' = JObj sz"
    and "field sz ''width'' = JNum (Fin w)" and "field sz ''height'' = JNum (Fin h)"
    and newX: "num_sub (num_sub (Fin (clientX e)) (Fin (rect_left rect)))
                 (Fin (fst (dragOffset st))) = Fin newX"
    and newY: "num_sub (num_sub (Fin (clientY e)) (Fin (rect_top rect)))
                 (Fin (snd (dragOffset st))) = Fin newY"
    and maxX: "num_sub (Fin (rect_width rect)) (Fin w) = Fin maxX"
    and maxY: "num_sub (Fin (rect_height rect)) (Fin h) = Fin maxY"
  shows "handleMouseMove str2num st (Some rect) ovs True e =
           Update dragged
             (position_patch (round_half_up (clamp newX 0 maxX))
                             (round_half_up (clamp newY 0 maxY)))
         \<and> 0 \<le> clamp newX 0 maxX
         \<and> 0 \<le> clamp newY 0 maxY
         \<and> (w \<le> rect_width rect \<longrightarrow> clamp newX 0 maxX \<le> maxX)
         \<and> (h \<le> rect_height rect \<longrightarrow> clamp newY 0 maxY \<le> maxY)
         \<and> (rect_width rect < w \<longrightarrow> clamp newX 0 maxX = 0)
         \<and> (rect_height rect < h \<longrightarrow> clamp newY 0 maxY = 0)"
proof -
  have call: "handleMouseMove str2num st (Some rect) ovs True e =
           Update dragged
             (position_patch (round_half_up (clamp newX 0 maxX))
                             (round_half_up (clamp newY 0 maxY)))"
    using assms
    by (simp add: handleMouseMove_def Let_def clamp_code position_patch_def round_half_up_def
          del: Math_max.simps Math_min.simps num_sub.simps)
  from maxX have mx: "binary64 (rect_width rect - w) = Fin maxX" by simp
  from maxY have my: "binary64 (rect_height rect - h) = Fin maxY" by simp
  have fits_x: "0 \<le> maxX" if "w \<le> rect_width rect"
    using that binary64_nonneg [OF _ mx] by simp
  have fits_y: "0 \<le> maxY" if "h \<le> rect_height rect"
    using that binary64_nonneg [OF _ my] by simp
  have over_x: "maxX \<le> 0" if "rect_width rect < w"
    using that binary64_nonpos [OF _ mx] by simp
  have over_y: "maxY \<le> 0" if "rect_height rect < h"
    using that binary64_nonpos [OF _ my] by simp
  from call fits_x fits_y over_x over_y show ?thesis
    by (auto simp add: clamp_def)
qed

theorem handleMouseMove_clamps_witness:
  "draggedOverlay drag_A = Some ''a'' \<and> isDragging drag_A
   \<and> find (\<lambda>ov. field ov ''_id'' = JStr ''a'') [overlay_A, overlay_B] = Some overlay_A
   \<and> handleMouseMove no_numeric_strings drag_A (Some (video_rect 800)) [overlay_A, overlay_B]
        True (pointer_at 860)
       = Update ''a'' (position_patch 600 20)
   \<and> handleMouseMove no_numeric_strings drag_A (Some (video_rect 800)) [overlay_A, overlay_B]
        True (pointer_at 80)
       = Update ''a'' (position_patch 0 20)
   \<and> handleMouseMove no_numeric_strings drag_A (Some (video_rect 150)) [overlay_A, overlay_B]
        True (pointer_at 200)
       = Update ''a'' (position_patch 0 20)
   \<and> handleMouseMove no_numeric_strings drag_tiny (Some half_pixel_rect)
        [overlay_A, overlay_B] True (pointer_at 1)
       = Update ''a'' (position_patch 1 20)"
proof -
  have st: "draggedOverlay drag_A = Some ''a''" "''a'' \<noteq> []" "isDragging drag_A"
    by (simp_all add: drag_A_def)
  have st': "draggedOverlay drag_tiny = Some ''a''" "''a'' \<noteq> []" "isDragging drag_tiny"
    by (simp_all add: drag_tiny_def)
  have found: "find (\<lambda>ov. field ov ''_id'' = JStr ''a'') [overlay_A, overlay_B] = Some overlay_A"
    by (simp add: overlay_A_def field_def)
  let ?sz = "[''width'' \<mapsto> JNum (Fin 200), ''height'' \<mapsto> JNum (Fin 50)]"
  have sz: "field overlay_A ''size'' = JObj ?sz" "field ?sz ''width'' = JNum (Fin 200)"
    "field ?sz ''height'' = JNum (Fin 50)"
    by (simp_all add: overlay_A_def field_def)
  have ints: "binary64 760 = Fin 760" "binary64 750 = Fin 750" "binary64 (- 20) = Fin (- 20)"
    "binary64 (- 30) = Fin (- 30)" "binary64 100 = Fin 100" "binary64 90 = Fin 90"
    "binary64 25 = Fin 25" "binary64 20 = Fin 20" "binary64 600 = Fin 600"
    "binary64 (- 50) = Fin (- 50)" "binary64 400 = Fin 400"
    using binary64_of_int [of 760] binary64_of_int [of 750] binary64_of_int [of "- 20"]
      binary64_of_int [of "- 30"] binary64_of_int [of 100] binary64_of_int [of 90]
      binary64_of_int [of 25] binary64_of_int [of 20] binary64_of_int [of 600]
      binary64_of_int [of "- 50"] binary64_of_int [of 400]
    by simp_all
  have y: "num_sub (num_sub (Fin (clientY (pointer_at x))) (Fin (rect_top (video_rect v))))
             (Fin (snd (dragOffset drag_A))) = Fin 20"
    "num_sub (Fin (rect_height (video_rect v))) (Fin 50) = Fin 400" for x v
    by (simp_all add: pointer_at_def video_rect_def drag_A_def ints)
  have x1: "num_sub (num_sub (Fin (clientX (pointer_at 860))) (Fin (rect_left (video_rect 800))))
              (Fin (fst (dragOffset drag_A))) = Fin 750"
    "num_sub (Fin (rect_width (video_rect 800))) (Fin 200) = Fin 600"
    by (simp_all add: pointer_at_def video_rect_def drag_A_def ints)
  have x2: "num_sub (num_sub (Fin (clientX (pointer_at 80))) (Fin (rect_left (video_rect 800))))
              (Fin (fst (dragOffset drag_A))) = Fin (- 30)"
    by (simp add: pointer_at_def video_rect_def drag_A_def ints)
  have x3: "num_sub (num_sub (Fin (clientX (pointer_at 200))) (Fin (rect_left (video_rect 150))))
              (Fin (fst (dragOffset drag_A))) = Fin 90"
    "num_sub (Fin (rect_width (video_rect 150))) (Fin 200) = Fin (- 50)"
    by (simp_all add: pointer_at_def video_rect_def drag_A_def ints)
  have x4: "num_sub (num_sub (Fin (clientX (pointer_at 1))) (Fin (rect_left half_pixel_rect)))
              (Fin (fst (dragOffset drag_tiny))) = Fin (1 / 2)"
    "num_sub (Fin (rect_width half_pixel_rect)) (Fin 200) = Fin 600"
    using binary64_half binary64_tie
    by (simp_all add: pointer_at_def half_pixel_rect_def drag_tiny_def ints)
  have y4: "num_sub (num_sub (Fin (clientY (pointer_at 1))) (Fin (rect_top half_pixel_rect)))
              (Fin (snd (dragOffset drag_tiny))) = Fin 20"
    "num_sub (Fin (rect_height half_pixel_rect)) (Fin 50) = Fin 400"
    by (simp_all add: pointer_at_def half_pixel_rect_def drag_tiny_def ints)
  note t = handleMouseMove_clamps [OF st found sz, of _ _ _ _ _ _ no_numeric_strings]
  from t [OF x1(1) y(1) x1(2) y(2)]
  have a: "handleMouseMove no_numeric_strings drag_A (Some (video_rect 800)) [overlay_A, overlay_B]
        True (pointer_at 860) = Update ''a'' (position_patch 600 20)"
    by (simp add: clamp_def round_half_up_def)
  from t [OF x2 y(1) x1(2) y(2)]
  have b: "handleMouseMove no_numeric_strings drag_A (Some (video_rect 800)) [overlay_A, overlay_B]
        True (pointer_at 80) = Update ''a'' (position_patch 0 20)"
    by (simp add: clamp_def round_half_up_def)
  from t [OF x3(1) y(1) x3(2) y(2)]
  have c: "handleMouseMove no_numeric_strings drag_A (Some (video_rect 150)) [overlay_A, overlay_B]
        True (pointer_at 200) = Update ''a'' (position_patch 0 20)"
    by (simp add: clamp_def round_half_up_def)
  from handleMouseMove_clamps [OF st' found sz x4(1) y4(1) x4(2) y4(2), of no_numeric_strings]
  have d: "handleMouseMove no_numeric_strings drag_tiny (Some half_pixel_rect)
        [overlay_A, overlay_B] True (pointer_at 1) = Update ''a'' (position_patch 1 20)"
    by (simp add: clamp_def round_half_up_def)
  from st found a b c d show ?thesis by simp
qed

section \<open>Error messages, creation and the size and position bounds\<close>

lemma createOverlay_fulfilled:
  "data_reply srv (sent s @ [POST ''/overlays'' draft]) = Fulfilled r \<Longrightarrow>
   createOverlay srv draft s =
     (Fulfilled r, fetchOverlays srv (s\<lparr>sent := sent s @ [POST ''/overlays'' draft]\<rparr>))"
  by (simp add: createOverlay_def overlayAPI_create_def api_post_def respond_def Let_def)

lemma createOverlay_rejected:
  "data_reply srv (sent s @ [POST ''/overlays'' draft]) = Rejected err \<Longrightarrow>
   createOverlay srv draft s =
     (Rejected err,
      s\<lparr>sent := sent s @ [POST ''/overlays'' draft],
        error := handleError err (JStr ''Failed to create overlay'')\<rparr>)"
  by (simp add: createOverlay_def overlayAPI_create_def api_post_def respond_def Let_def)

lemma deleteOverlay_fulfilled:
  "data_reply srv (sent s @ [DELETE (''/overlays/'' @ i)]) = Fulfilled r \<Longrightarrow>
   deleteOverlay srv i s =
     (Fulfilled (),
      s\<lparr>overlays := filter (\<lambda>ov. field ov ''_id'' \<noteq> JStr i) (overlays s),
        sent := sent s @ [DELETE (''/overlays/'' @ i)]\<rparr>)"
  by (simp add: deleteOverlay_def overlayAPI_delete_def api_delete_def respond_def Let_def)

lemma deleteOverlay_rejected:
  "data_reply srv (sent s @ [DELETE (''/overlays/'' @ i)]) = Rejected err \<Longrightarrow>
   deleteOverlay srv i s =
     (Rejected err,
      (fetchOverlays srv (s\<lparr>sent := sent s @ [DELETE (''/overlays/'' @ i)]\<rparr>))
        \<lparr>error := handleError err (JStr ''Failed to delete overlay'')\<rparr>)"
  by (simp add: deleteOverlay_def overlayAPI_delete_def api_delete_def respond_def Let_def)

text \<open>
  A rejected element of a batch is a remote-call failure that passes through no
  extraction rule: with the second of three \<^verbatim>\<open>PUT\<close>s rejected by a network error,
  \<^verbatim>\<open>batchUpdateOverlays\<close> fulfils, and the error state, which the rule would set to the
  transport's message, is still \<^verbatim>\<open>null\<close>.
\<close>

theorem error_message_extraction_counterexample:
  "fst (overlayAPI_batchUpdate rejecting_b batch_updates local_store) ! 1 = Rejected outage
   \<and> handleError outage (JStr ''Failed to update overlays'') = JStr ''Network Error''
   \<and> fulfilled (fst (batchUpdateOverlays rejecting_b clock batch_updates local_store))
   \<and> error (snd (batchUpdateOverlays rejecting_b clock batch_updates local_store)) = JNull"
proof -
  have "1 < length batch_updates"
    by (simp add: batch_updates_def)
  from batchUpdate_nth [OF this, of rejecting_b local_store]
  have a: "fst (overlayAPI_batchUpdate rejecting_b batch_updates local_store) ! 1
             = Rejected outage"
    by (simp add: batch_updates_def rejecting_b_def put_of_def local_store_def respond_def)
  have b: "handleError outage (JStr ''Failed to update overlays'') = JStr ''Network Error''"
    by (simp add: handleError_def outage_def)
  note unf = batchUpdateOverlays_unfold [of rejecting_b clock batch_updates local_store]
  have c: "fulfilled (fst (batchUpdateOverlays rejecting_b clock batch_updates local_store))"
    by (simp add: unf)
  have "error (snd (batchUpdateOverlays rejecting_b clock batch_updates local_store))
          = error local_store"
    by (simp add: unf batchUpdate_frame)
  then have d: "error (snd (batchUpdateOverlays rejecting_b clock batch_updates local_store))
                  = JNull"
    by (simp add: local_store_def)
  from a b c d show ?thesis by simp
qed

text \<open>
  C8, as the code has it. After a rejected request of \<^verbatim>\<open>fetchOverlays\<close>,
  \<^verbatim>\<open>createOverlay\<close>, \<^verbatim>\<open>updateOverlay\<close> or \<^verbatim>\<open>deleteOverlay\<close> (and so of
  \<^verbatim>\<open>toggleOverlayVisibility\<close>), the error state is the result of one rule on the
  rejection: the server-provided message when the error carries one (a truthy
  \<^verbatim>\<open>error.response.data.error\<close>), otherwise the transport's own message when it has one
  (a truthy \<^verbatim>\<open>error.message\<close>), otherwise the operation's default string; this is what
  \<^verbatim>\<open>handleError\<close> returns for any default string it is given. \<^verbatim>\<open>batchUpdateOverlays\<close>
  surfaces no message: whatever is rejected, it leaves the error state as it was.
\<close>

theorem error_message_extraction:
  "(list_reply srv (sent s @ [GET ''/overlays'']) = Rejected err \<longrightarrow>
        error (fetchOverlays srv s) =
          (if truthy (response_data_error err) then response_data_error err
           else if truthy (message err) then message err
           else JStr ''Failed to fetch overlays''))
   \<and> (data_reply srv (sent s @ [POST ''/overlays'' draft]) = Rejected err \<longrightarrow>
        error (snd (createOverlay srv draft s)) =
          (if truthy (response_data_error err) then response_data_error err
           else if truthy (message err) then message err
           else JStr ''Failed to create overlay''))
   \<and> (data_reply srv (sent s @ [PUT (''/overlays/'' @ i) p]) = Rejected err \<longrightarrow>
        error (snd (updateOverlay srv now i p s)) =
          (if truthy (response_data_error err) then response_data_error err
           else if truthy (message err) then message err
           else JStr ''Failed to update overlay''))
   \<and> (data_reply srv (sent s @ [DELETE (''/overlays/'' @ i)]) = Rejected err \<longrightarrow>
        error (snd (deleteOverlay srv i s)) =
          (if truthy (response_data_error err) then response_data_error err
           else if truthy (message err) then message err
           else JStr ''Failed to delete overlay''))
   \<and> (find (\<lambda>ov. field ov ''_id'' = JStr i) (overlays s) = Some ov
        \<and> data_reply srv
             (sent s @ [PUT (''/overlays/'' @ i)
                          [''visible'' \<mapsto> JBool (\<not> truthy (field ov ''visible''))]])
            = Rejected err \<longrightarrow>
        error (snd (toggleOverlayVisibility srv now i s)) =
          (if truthy (response_data_error err) then response_data_error err
           else if truthy (message err) then message err
           else JStr ''Failed to update overlay''))
   \<and> handleError err (JStr d) =
         (if truthy (response_data_error err) then response_data_error err
          else if truthy (message err) then message err
          else JStr d)
   \<and> error (snd (batchUpdateOverlays srv now updates s)) = error s"
proof -
  have rule: "handleError err (JStr d') =
         (if truthy (response_data_error err) then response_data_error err
          else if truthy (message err) then message err
          else JStr d')" for d'
    by (simp add: handleError_def)
  have batch: "error (snd (batchUpdateOverlays srv now updates s)) = error s"
    by (simp add: batchUpdateOverlays_unfold batchUpdate_frame)
  have toggle: "error (snd (toggleOverlayVisibility srv now i s)) =
          (if truthy (response_data_error err) then response_data_error err
           else if truthy (message err) then message err
           else JStr ''Failed to update overlay'')"
    if "find (\<lambda>ov. field ov ''_id'' = JStr i) (overlays s) = Some ov"
      and "data_reply srv
             (sent s @ [PUT (''/overlays/'' @ i)
                          [''visible'' \<mapsto> JBool (\<not> truthy (field ov ''visible''))]])
            = Rejected err"
    using that by (simp add: toggle_present updateOverlay_rejected rule)
  from rule batch toggle show ?thesis
    by (simp add: fetchOverlays_rejected createOverlay_rejected
          updateOverlay_rejected deleteOverlay_rejected)
qed

theorem error_message_extraction_witness:
  "list_reply offline (sent local_store @ [GET ''/overlays'']) = Rejected outage
   \<and> error (fetchOverlays offline local_store) = JStr ''Network Error''
   \<and> data_reply offline (sent local_store @ [POST ''/overlays'' overlay_C]) = Rejected outage
   \<and> error (snd (createOverlay offline overlay_C local_store)) = JStr ''Network Error''
   \<and> data_reply offline (sent local_store @ [PUT (''/overlays/'' @ ''a'') move_patch])
        = Rejected outage
   \<and> error (snd (updateOverlay offline clock ''a'' move_patch local_store))
        = JStr ''Network Error''
   \<and> data_reply offline (sent local_store @ [DELETE (''/overlays/'' @ ''a'')]) = Rejected outage
   \<and> error (snd (deleteOverlay offline ''a'' local_store)) = JStr ''Network Error''
   \<and> find (\<lambda>ov. field ov ''_id'' = JStr ''a'') (overlays local_store) = Some overlay_A
   \<and> error (snd (toggleOverlayVisibility offline clock ''a'' local_store))
        = JStr ''Network Error''
   \<and> handleError not_found (JStr ''Failed to update overlay'') = JStr ''Overlay not found''
   \<and> handleError silent_error (JStr ''Failed to update overlay'')
        = JStr ''Failed to update overlay''
   \<and> error (snd (batchUpdateOverlays rejecting_b clock batch_updates local_store)) = JNull"
proof -
  have replies:
    "list_reply offline (sent local_store @ [GET ''/overlays'']) = Rejected outage"
    "data_reply offline (sent local_store @ [POST ''/overlays'' overlay_C]) = Rejected outage"
    "data_reply offline (sent local_store @ [PUT (''/overlays/'' @ ''a'') move_patch])
       = Rejected outage"
    "data_reply offline (sent local_store @ [DELETE (''/overlays/'' @ ''a'')]) = Rejected outage"
    by (simp_all add: offline_def)
  have present: "find (\<lambda>ov. field ov ''_id'' = JStr ''a'') (overlays local_store)
                   = Some overlay_A"
    by (simp add: local_store_def overlay_A_def field_def)
  have toggled: "data_reply offline
             (sent local_store @ [PUT (''/overlays/'' @ ''a'')
                          [''visible'' \<mapsto> JBool (\<not> truthy (field overlay_A ''visible''))]])
            = Rejected outage"
    by (simp add: offline_def)
  have msg: "(if truthy (response_data_error outage) then response_data_error outage
              else if truthy (message outage) then message outage
              else JStr d) = JStr ''Network Error''" for d
    by (simp add: outage_def)
  note t = error_message_extraction
  from t [of offline local_store outage overlay_C "''a''" move_patch clock overlay_A
            "''Failed to update overlay''" batch_updates]
    replies present toggled
  have ops: "error (fetchOverlays offline local_store) = JStr ''Network Error''"
    "error (snd (createOverlay offline overlay_C local_store)) = JStr ''Network Error''"
    "error (snd (updateOverlay offline clock ''a'' move_patch local_store))
        = JStr ''Network Error''"
    "error (snd (deleteOverlay offline ''a'' local_store)) = JStr ''Network Error''"
    "error (snd (toggleOverlayVisibility offline clock ''a'' local_store))
        = JStr ''Network Error''"
    unfolding msg by blast+
  from t [of rejecting_b local_store not_found overlay_C "''a''" move_patch clock overlay_A
            "''Failed to update overlay''" batch_updates]
  have rule1: "handleError not_found (JStr ''Failed to update overlay'')
                 = JStr ''Overlay not found''"
    and batch: "error (snd (batchUpdateOverlays rejecting_b clock batch_updates local_store))
                  = error local_store"
    by (simp_all add: not_found_def)
  from t [of offline local_store silent_error overlay_C "''a''" move_patch clock overlay_A
            "''Failed to update overlay''" batch_updates]
  have rule2: "handleError silent_error (JStr ''Failed to update overlay'')
                 = JStr ''Failed to update overlay''"
    by (simp add: silent_error_def)
  from batch have batch': "error (snd (batchUpdateOverlays rejecting_b clock batch_updates
                                          local_store)) = JNull"
    by (simp add: local_store_def)
  from replies ops present rule1 rule2 batch' show ?thesis
    by simp
qed







lemma within_bounds_merged:
  "within_bounds ov \<Longrightarrow> patch_within_bounds p \<Longrightarrow> within_bounds (merged ov p stamp)"
  by (auto simp add: within_bounds_def patch_within_bounds_def field_merged split: option.splits)

lemma within_bounds_merge_matching:
  "list_all within_bounds ovs \<Longrightarrow> patch_within_bounds p \<Longrightarrow>
   list_all within_bounds (merge_matching now n i p ovs)"
  by (induction ovs arbitrary: n) (simp_all add: within_bounds_merged)

lemma list_all_update:
  "list_all P xs \<Longrightarrow> P x \<Longrightarrow> list_all P (xs[j := x])"
  by (induction xs arbitrary: j) (auto split: nat.splits)

lemma within_bounds_apply_updates:
  "list_all within_bounds ovs \<Longrightarrow> \<forall>u \<in> set us. patch_within_bounds (snd u) \<Longrightarrow>
   list_all within_bounds (apply_updates now n us ovs)"
proof (induction us arbitrary: n ovs)
  case Nil
  then show ?case by simp
next
  case (Cons u us)
  obtain i d where u: "u = (i, d)" by (cases u)
  from Cons.prems have d: "patch_within_bounds d"
    and rest: "\<forall>u \<in> set us. patch_within_bounds (snd u)"
    by (simp_all add: u)
  show ?case
  proof (cases "findIndex (\<lambda>ov. field ov ''_id'' = JStr i) ovs")
    case None
    with Cons.IH [OF Cons.prems(1) rest] show ?thesis by (simp add: u)
  next
    case (Some index)
    from findIndex_Some [OF Some] have "index < length ovs" by simp
    with Cons.prems(1) have "within_bounds (ovs ! index)"
      by (simp add: list_all_length)
    with d have "within_bounds (merged (ovs ! index) d (now n))"
      by (simp add: within_bounds_merged)
    with Cons.prems(1)
    have "list_all within_bounds (ovs[index := merged (ovs ! index) d (now n)])"
      by (simp add: list_all_update)
    from Cons.IH [OF this rest] Some show ?thesis by (simp add: u)
  qed
qed

lemma within_bounds_fetchOverlays:
  "list_all within_bounds (overlays s) \<Longrightarrow> remote_within_bounds srv \<Longrightarrow>
   list_all within_bounds (overlays (fetchOverlays srv s))"
  by (cases "list_reply srv (sent s @ [GET ''/overlays''])")
     (auto simp add: fetchOverlays_fulfilled fetchOverlays_rejected remote_within_bounds_def)

text \<open>
  C2, as the code has it. The store operations do not check the bounds; they preserve
  them. When every record of the collection is within the bounds, every collection the
  remote store returns is, and the patches passed to \<^verbatim>\<open>updateOverlay\<close> and
  \<^verbatim>\<open>batchUpdateOverlays\<close> respect them, then every record is within the bounds after
  each of the six operations, whether its requests were fulfilled or rejected.
\<close>

theorem store_bounds_preserved:
  assumes before: "list_all within_bounds (overlays s)"
    and remote: "remote_within_bounds srv"
  shows "list_all within_bounds (overlays (fetchOverlays srv s))
         \<and> list_all within_bounds (overlays (snd (createOverlay srv draft s)))
         \<and> (patch_within_bounds p \<longrightarrow>
              list_all within_bounds (overlays (snd (updateOverlay srv now i p s))))
         \<and> list_all within_bounds (overlays (snd (deleteOverlay srv i s)))
         \<and> ((\<forall>u \<in> set updates. patch_within_bounds (snd u)) \<longrightarrow>
              list_all within_bounds (overlays (snd (batchUpdateOverlays srv now updates s))))
         \<and> list_all within_bounds (overlays (snd (toggleOverlayVisibility srv now i s)))"
proof -
  have refetch: "list_all within_bounds (overlays (fetchOverlays srv (s\<lparr>sent := rs\<rparr>)))" for rs
    by (rule within_bounds_fetchOverlays) (use before remote in simp_all)
  have fetch: "list_all within_bounds (overlays (fetchOverlays srv s))"
    using before remote by (rule within_bounds_fetchOverlays)
  have create: "list_all within_bounds (overlays (snd (createOverlay srv draft s)))"
    by (cases "data_reply srv (sent s @ [POST ''/overlays'' draft])")
       (simp_all add: createOverlay_fulfilled createOverlay_rejected refetch before)
  have update: "list_all within_bounds (overlays (snd (updateOverlay srv now i q s)))"
    if "patch_within_bounds q" for q
    by (cases "data_reply srv (sent s @ [PUT (''/overlays/'' @ i) q])")
       (simp_all add: updateOverlay_fulfilled updateOverlay_rejected refetch
          within_bounds_merge_matching before that)
  have delete: "list_all within_bounds (overlays (snd (deleteOverlay srv i s)))"
  proof (cases "data_reply srv (sent s @ [DELETE (''/overlays/'' @ i)])")
    case (Fulfilled r)
    from before
    have "list_all within_bounds (filter (\<lambda>ov. field ov ''_id'' \<noteq> JStr i) (overlays s))"
      by (simp add: list_all_iff)
    then show ?thesis
      by (simp add: deleteOverlay_fulfilled [OF Fulfilled])
  next
    case (Rejected err)
    then show ?thesis
      by (simp add: deleteOverlay_rejected refetch)
  qed
  have batch: "list_all within_bounds (overlays (snd (batchUpdateOverlays srv now updates s)))"
    if ok: "\<forall>u \<in> set updates. patch_within_bounds (snd u)"
  proof -
    have "\<forall>u \<in> set (successfulUpdates updates (fst (overlayAPI_batchUpdate srv updates s))).
            patch_within_bounds (snd u)"
      using ok by (auto simp: set_successful) (metis nth_mem snd_conv)
    with before show ?thesis
      by (simp add: batchUpdateOverlays_unfold within_bounds_apply_updates)
  qed
  have toggle: "list_all within_bounds (overlays (snd (toggleOverlayVisibility srv now i s)))"
  proof (cases "find (\<lambda>ov. field ov ''_id'' = JStr i) (overlays s)")
    case None
    with before show ?thesis by (simp add: toggle_absent)
  next
    case (Some ov)
    have "patch_within_bounds [''visible'' \<mapsto> JBool (\<not> truthy (field ov ''visible''))]"
      by (simp add: patch_within_bounds_def)
    from update [OF this] show ?thesis
      by (simp add: toggle_present [OF Some])
  qed
  from fetch create update delete batch toggle show ?thesis
    by blast
qed

text \<open>
  The bounds are not an invariant of the operations as such: a fulfilled
  \<^verbatim>\<open>updateOverlay\<close> with a patch of width 5000, on a collection within the bounds,
  leaves a record outside them.
\<close>

theorem store_bounds_counterexample:
  "list_all within_bounds (overlays local_store)
   \<and> fst (updateOverlay accepting clock ''a'' oversize_patch local_store) = Fulfilled ()
   \<and> \<not> list_all within_bounds
         (overlays (snd (updateOverlay accepting clock ''a'' oversize_patch local_store)))"
proof -
  have before: "list_all within_bounds (overlays local_store)"
    by (simp add: local_store_def within_bounds_def size_ok_def position_ok_def field_def
          overlay_A_def overlay_B_def overlay_C_def)
  have ok: "data_reply accepting (sent local_store @ [PUT (''/overlays/'' @ ''a'') oversize_patch])
              = Fulfilled JNull"
    by (simp add: accepting_def)
  note upd = updateOverlay_fulfilled [OF ok, of clock]
  have "field (merged overlay_A oversize_patch (clock 0)) ''size''
          = JObj [''width'' \<mapsto> JNum (Fin 5000), ''height'' \<mapsto> JNum (Fin 50)]"
    by (simp add: field_merged oversize_patch_def)
  then have "\<not> size_ok (field (merged overlay_A oversize_patch (clock 0)) ''size'')"
    by (simp add: size_ok_def field_def)
  then have "\<not> within_bounds (merged overlay_A oversize_patch (clock 0))"
    by (simp add: within_bounds_def)
  moreover have "overlays (snd (updateOverlay accepting clock ''a'' oversize_patch local_store))
                   = merge_matching clock 0 ''a'' oversize_patch (overlays local_store)"
    by (simp add: upd)
  moreover have "field overlay_A ''_id'' = JStr ''a''"
    by (simp add: overlay_A_def field_def)
  ultimately have "\<not> list_all within_bounds
         (overlays (snd (updateOverlay accepting clock ''a'' oversize_patch local_store)))"
    by (simp add: local_store_def)
  with before show ?thesis
    by (simp add: upd)
qed


theorem store_bounds_preserved_witness:
  "list_all within_bounds (overlays local_store)
   \<and> remote_within_bounds accepting
   \<and> patch_within_bounds move_patch
   \<and> patch_within_bounds (snd (batch_updates ! 0)) \<and> patch_within_bounds (snd (batch_updates ! 1))
   \<and> patch_within_bounds (snd (batch_updates ! 2))
   \<and> list_all within_bounds (overlays (fetchOverlays accepting local_store))
   \<and> list_all within_bounds (overlays (snd (createOverlay accepting text_draft local_store)))
   \<and> list_all within_bounds
         (overlays (snd (updateOverlay accepting clock ''a'' move_patch local_store)))
   \<and> list_all within_bounds (overlays (snd (deleteOverlay accepting ''a'' local_store)))
   \<and> list_all within_bounds
         (overlays (snd (batchUpdateOverlays accepting clock batch_updates local_store)))
   \<and> list_all within_bounds
         (overlays (snd (toggleOverlayVisibility accepting clock ''a'' local_store)))"
proof -
  have b: "within_bounds overlay_B"
    by (simp add: within_bounds_def size_ok_def position_ok_def field_def overlay_B_def)
  have before: "list_all within_bounds (overlays local_store)"
    by (simp add: local_store_def within_bounds_def size_ok_def position_ok_def field_def
          overlay_A_def overlay_B_def overlay_C_def)
  have remote: "remote_within_bounds accepting"
    using b by (auto simp add: remote_within_bounds_def accepting_def)
  have patch: "patch_within_bounds move_patch"
    by (simp add: patch_within_bounds_def move_patch_def position_ok_def field_def)
  have patches: "patch_within_bounds (snd (batch_updates ! 0))"
    "patch_within_bounds (snd (batch_updates ! 1))" "patch_within_bounds (snd (batch_updates ! 2))"
    using patch by (simp_all add: batch_updates_def patch_within_bounds_def)
  then have all: "\<forall>u \<in> set batch_updates. patch_within_bounds (snd u)"
    by (simp add: batch_updates_def)
  from store_bounds_preserved [OF before remote, of text_draft move_patch clock "''a''" batch_updates]
    patch all
  have "list_all within_bounds (overlays (fetchOverlays accepting local_store))
   \<and> list_all within_bounds (overlays (snd (createOverlay accepting text_draft local_store)))
   \<and> list_all within_bounds
         (overlays (snd (updateOverlay accepting clock ''a'' move_patch local_store)))
   \<and> list_all within_bounds (overlays (snd (deleteOverlay accepting ''a'' local_store)))
   \<and> list_all within_bounds
         (overlays (snd (batchUpdateOverlays accepting clock batch_updates local_store)))
   \<and> list_all within_bounds
         (overlays (snd (toggleOverlayVisibility accepting clock ''a'' local_store)))"
    by blast
  with before remote patch patches show ?thesis
    by blast
qed

end
